theory Spec2Isabelle
  imports
    Complex_Main
    "HOL-Library.Char_ord"
    "HOL-Library.List_Lexorder"
    "HOL-Library.Product_Lexorder"
begin

section \<open>Request values\<close>

text \<open>
  The routes of \<^verbatim>\<open>tasks.js\<close> and \<^verbatim>\<open>stats.js\<close> read \<^verbatim>\<open>req.body\<close>, the JSON object that
  \<^verbatim>\<open>express.json()\<close> parsed, as the list of its keys with their values, each key once. A
  JSON number is kept as the rational it was parsed to; a missing key is \<^verbatim>\<open>undefined\<close> in
  JavaScript and \<open>None\<close> here. A string is the list of the bytes of its UTF-8
  encoding, which MongoDB compares and stores.
\<close>

datatype json =
    JNull
  | JBool bool
  | JNum rat
  | JStr string
  | JArr "json list"
  | JObj "(string \<times> json) list"

type_synonym body = "(string \<times> json) list"

definition field :: "body \<Rightarrow> string \<Rightarrow> json option" where
  "field b k = map_of b k"

subsection \<open>Character classes\<close>

definition isDigit :: "char \<Rightarrow> bool" where
  "isDigit c = (c \<in> set ''0123456789'')"

definition isHexDigit :: "char \<Rightarrow> bool" where
  "isHexDigit c = (c \<in> set ''0123456789abcdefABCDEF'')"

text \<open>
  \<^verbatim>\<open>String.prototype.trim\<close> strips the white space and the line terminators of
  ECMA-262 from both ends: U+0009 to U+000D, U+0020, U+00A0, U+1680, U+2000 to U+200A,
  U+2028, U+2029, U+202F, U+205F, U+3000 and U+FEFF, here in UTF-8.
\<close>

definition whiteSpace :: "string list" where
  "whiteSpace =
     [[CHR 0x09], [CHR 0x0A], [CHR 0x0B], [CHR 0x0C], [CHR 0x0D], [CHR 0x20],
      [CHR 0xC2, CHR 0xA0], [CHR 0xE1, CHR 0x9A, CHR 0x80],
      [CHR 0xE2, CHR 0x80, CHR 0x80], [CHR 0xE2, CHR 0x80, CHR 0x81],
      [CHR 0xE2, CHR 0x80, CHR 0x82], [CHR 0xE2, CHR 0x80, CHR 0x83],
      [CHR 0xE2, CHR 0x80, CHR 0x84], [CHR 0xE2, CHR 0x80, CHR 0x85],
      [CHR 0xE2, CHR 0x80, CHR 0x86], [CHR 0xE2, CHR 0x80, CHR 0x87],
      [CHR 0xE2, CHR 0x80, CHR 0x88], [CHR 0xE2, CHR 0x80, CHR 0x89],
      [CHR 0xE2, CHR 0x80, CHR 0x8A], [CHR 0xE2, CHR 0x80, CHR 0xA8],
      [CHR 0xE2, CHR 0x80, CHR 0xA9], [CHR 0xE2, CHR 0x80, CHR 0xAF],
      [CHR 0xE2, CHR 0x81, CHR 0x9F], [CHR 0xE3, CHR 0x80, CHR 0x80],
      [CHR 0xEF, CHR 0xBB, CHR 0xBF]]"

text \<open>The length of the white space character, one of \<open>ws\<close>, that \<open>s\<close> starts with; 0 if none.\<close>

definition spaceAt :: "string list \<Rightarrow> string \<Rightarrow> nat" where
  "spaceAt ws s =
     (case filter (\<lambda>w. take (length w) s = w) ws of [] \<Rightarrow> 0 | w # r \<Rightarrow> length w)"

function dropSpace :: "string list \<Rightarrow> string \<Rightarrow> string" where
  "dropSpace ws s =
     (if spaceAt ws s = 0 \<or> s = [] then s else dropSpace ws (drop (spaceAt ws s) s))"
  by pat_completeness auto
termination
  by (relation "measure (\<lambda>(ws, s). length s)") auto

declare dropSpace.simps [simp del]

definition trim :: "string \<Rightarrow> string" where
  "trim s = rev (dropSpace (map rev whiteSpace) (rev (dropSpace whiteSpace s)))"

definition digitVal :: "char \<Rightarrow> int" where
  "digitVal c = int (of_char c) - 48"

definition digitsVal :: "string \<Rightarrow> int" where
  "digitsVal ds = foldl (\<lambda>acc c. 10 * acc + digitVal c) 0 ds"

text \<open>
  The integer a string denotes when it matches the expression validator.js uses for
  \<^verbatim>\<open>isInt\<close> when \<^verbatim>\<open>allow_leading_zeroes\<close> is not set to false, \<^verbatim>\<open>^[-+]?[0-9]+$\<close>: an
  optional sign, then digits, leading zeroes among them. \<^verbatim>\<open>Number\<close> reads the same
  integer from such a string: \<^verbatim>\<open>05\<close> is 5, \<^verbatim>\<open>-007\<close> is -7.
\<close>

definition unsignedLiteral :: "string \<Rightarrow> int option" where
  "unsignedLiteral ds =
     (if ds = [] then None
      else if \<not> list_all isDigit ds then None
      else Some (digitsVal ds))"

fun intLiteral :: "string \<Rightarrow> int option" where
  "intLiteral [] = None"
| "intLiteral (c # r) =
     (if c = CHR ''-'' then map_option uminus (unsignedLiteral r)
      else if c = CHR ''+'' then unsignedLiteral r
      else unsignedLiteral (c # r))"

section \<open>express-validator\<close>

text \<open>
  The validation chains are lists of validators, each with the message \<^verbatim>\<open>withMessage\<close>
  gave it (the default message otherwise). The messages of the source are Chinese
  sentences; they are named here by what they say.
\<close>

datatype msg =
    Invalid_value
  | Date_required
  | Title_required
  | Progress_0_100
  | Progress_must_be_0_100
  | Id_invalid
  | Date_should_be_string
  | Start_required
  | End_required
  | Year_invalid
  | Month_1_12

type_synonym verror = "string \<times> msg"

datatype validator = IsString | NotEmpty | IsInt int "int option" | IsMongoId

text \<open>
  Standard validators (all but \<^verbatim>\<open>isString\<close>) see \<^verbatim>\<open>toString(value)\<close>. For a JSON value
  that string matters in two ways only: whether it is empty, and which integer literal it
  is. Both follow express-validator's \<^verbatim>\<open>toString\<close>: an array stands for its first element
  at the top level and for its \<^verbatim>\<open>join(',')\<close> below, \<^verbatim>\<open>null\<close> is the empty string, an
  object is \<^verbatim>\<open>[object Object]\<close>, a number prints as an integer literal exactly when it is
  an integer below \<^verbatim>\<open>1e21\<close> in magnitude.
\<close>

definition ratInt :: "rat \<Rightarrow> int option" where
  "ratInt q = (if of_int (floor q) = q then Some (floor q) else None)"

fun strInt :: "json \<Rightarrow> int option" where
  "strInt JNull = None"
| "strInt (JBool b) = None"
| "strInt (JNum q) =
     (case ratInt q of
        None \<Rightarrow> None
      | Some n \<Rightarrow> if abs n < 10 ^ 21 then Some n else None)"
| "strInt (JStr s) = intLiteral s"
| "strInt (JArr []) = None"
| "strInt (JArr [x]) = strInt x"
| "strInt (JArr (x # y # zs)) = None"
| "strInt (JObj kvs) = None"

fun strEmpty :: "json \<Rightarrow> bool" where
  "strEmpty JNull = True"
| "strEmpty (JBool b) = False"
| "strEmpty (JNum q) = False"
| "strEmpty (JStr s) = (s = [])"
| "strEmpty (JArr []) = True"
| "strEmpty (JArr [x]) = strEmpty x"
| "strEmpty (JArr (x # y # zs)) = False"
| "strEmpty (JObj kvs) = False"

fun toStringInt :: "json \<Rightarrow> int option" where
  "toStringInt (JArr (x # xs)) = strInt x"
| "toStringInt v = strInt v"

fun toStringEmpty :: "json \<Rightarrow> bool" where
  "toStringEmpty (JArr (x # xs)) = strEmpty x"
| "toStringEmpty v = strEmpty v"

definition inRange :: "int \<Rightarrow> int option \<Rightarrow> int option \<Rightarrow> bool" where
  "inRange lo hi r =
     (case r of
        None \<Rightarrow> False
      | Some n \<Rightarrow> lo \<le> n \<and> (case hi of None \<Rightarrow> True | Some h \<Rightarrow> n \<le> h))"

text \<open>
  validator.js: \<^verbatim>\<open>isMongoId(s) = isHexadecimal(s) && s.length === 24\<close>, and
  \<^verbatim>\<open>isHexadecimal\<close> matches \<^verbatim>\<open>^(0x|0h)?[0-9A-F]+$\<close> without regard to case.
\<close>

definition isHexadecimal :: "string \<Rightarrow> bool" where
  "isHexadecimal s =
     (let r = (if take 2 s \<in> set [''0x'', ''0h'', ''0X'', ''0H''] then drop 2 s else s)
      in r \<noteq> [] \<and> list_all isHexDigit r)"

definition isMongoIdStr :: "string \<Rightarrow> bool" where
  "isMongoIdStr s = (isHexadecimal s \<and> length s = 24)"

text \<open>What one element of a value does under a standard validator.\<close>

fun checkItem :: "validator \<Rightarrow> json \<Rightarrow> bool" where
  "checkItem IsString v = (case v of JStr s \<Rightarrow> True | _ \<Rightarrow> False)"
| "checkItem NotEmpty v = (\<not> toStringEmpty v)"
| "checkItem (IsInt lo hi) v = inRange lo hi (toStringInt v)"
| "checkItem IsMongoId v = (case v of JStr s \<Rightarrow> isMongoIdStr s | _ \<Rightarrow> False)"

text \<open>
  \<^verbatim>\<open>isString\<close> is a custom validator (\<^verbatim>\<open>typeof value === 'string'\<close>) and sees the value
  whole. A standard validator runs on every element of an array value and on the
  value itself otherwise; \<^verbatim>\<open>undefined\<close> is the empty string to it.
\<close>

fun check :: "validator \<Rightarrow> json option \<Rightarrow> bool" where
  "check IsString None = False"
| "check IsString (Some v) = checkItem IsString v"
| "check vd None = False"
| "check vd (Some (JArr xs)) = list_all (checkItem vd) xs"
| "check vd (Some v) = checkItem vd v"

text \<open>
  The descriptors a validator adds: one when \<^verbatim>\<open>isString\<close> fails, and for a standard
  validator one for every element of an array value that fails, one for a failing value
  that is no array.
\<close>

fun failing :: "validator \<Rightarrow> json option \<Rightarrow> nat" where
  "failing IsString v = (if check IsString v then 0 else 1)"
| "failing vd (Some (JArr xs)) = length (filter (\<lambda>x. \<not> checkItem vd x) xs)"
| "failing vd v = (if check vd v then 0 else 1)"

text \<open>
  A chain: the field's name, whether it is \<^verbatim>\<open>optional()\<close> (skipped when the value is
  \<^verbatim>\<open>undefined\<close>), and its validators with their messages.
\<close>

definition runChain :: "string \<Rightarrow> bool \<Rightarrow> (validator \<times> msg) list \<Rightarrow> json option \<Rightarrow> verror list" where
  "runChain name opt vs v =
     (if opt \<and> v = None then []
      else concat (map (\<lambda>(vd, m). replicate (failing vd v) (name, m)) vs))"

section \<open>The task model (Task.js)\<close>

type_synonym oid = string
type_synonym time = int

record task =
  taskId :: oid
  userId :: oid
  date :: string
  title :: string
  progress :: int
  category :: string
  priority :: int
  createTime :: time
  updateTime :: time

type_synonym store = "task list"

text \<open>
  \<^verbatim>\<open>req.user.id\<close> is set by the authentication middleware, which is not part of the
  sources: it is a parameter of every route. It names a user by the 24 hexadecimal digits
  of the user's ObjectId, either as the string the token carries or as an ObjectId.
  Mongoose casts it to an ObjectId wherever the schema types the query (\<^verbatim>\<open>find\<close>,
  \<^verbatim>\<open>findOneAndUpdate\<close>, \<^verbatim>\<open>findOneAndDelete\<close>, \<^verbatim>\<open>create\<close>).
\<close>

datatype caller = IdString oid | IdObject oid

fun ownerOf :: "caller \<Rightarrow> oid" where
  "ownerOf (IdString h) = h"
| "ownerOf (IdObject h) = h"

datatype failure =
    ValidationError "verror list"
  | NotFoundError
  | InternalError

text \<open>
  Mongoose's casts. \<open>Cast\<close> is the cast value, \<open>CastError\<close> the error Mongoose raises, and
  \<open>Unmodelled\<close> marks a value whose cast leaves what this model represents (a stored
  \<^verbatim>\<open>null\<close>, a number that is not an integer, JavaScript's general reading of strings as
  numbers or dates).
\<close>

datatype 'a cast = Cast 'a | CastError | Unmodelled

fun castString :: "json \<Rightarrow> string cast" where
  "castString (JStr s) = Cast s"
| "castString v = Unmodelled"

fun castNumber :: "json \<Rightarrow> int cast" where
  "castNumber (JNum q) =
     (case ratInt q of
        Some n \<Rightarrow> if abs n < 2 ^ 53 then Cast n else Unmodelled
      | None \<Rightarrow> Unmodelled)"
| "castNumber (JStr s) =
     (case intLiteral s of
        Some n \<Rightarrow> if abs n < 2 ^ 53 then Cast n else Unmodelled
      | None \<Rightarrow> Unmodelled)"
| "castNumber (JArr xs) = CastError"
| "castNumber v = Unmodelled"

text \<open>
  \<^verbatim>\<open>Task.create\<close>: the schema's setters (\<^verbatim>\<open>trim\<close> on title and category), then its
  validators (\<^verbatim>\<open>required\<close> rejects an empty string; \<^verbatim>\<open>min\<close> and \<^verbatim>\<open>max\<close>), then the
  \<^verbatim>\<open>pre('save')\<close> hook, then the insert, which a duplicate \<^verbatim>\<open>_id\<close> fails. \<open>t0\<close> is the
  clock when the defaults are taken, \<open>t1\<close> when the hook runs, \<open>newId\<close> the ObjectId the
  driver generates. \<open>None\<close> is a failure (a rejected promise).
\<close>

definition schemaValid :: "task \<Rightarrow> bool" where
  "schemaValid t =
     (date t \<noteq> [] \<and> title t \<noteq> [] \<and>
      0 \<le> progress t \<and> progress t \<le> 100 \<and>
      1 \<le> priority t \<and> priority t \<le> 3)"

definition TaskCreate ::
  "time \<Rightarrow> time \<Rightarrow> oid \<Rightarrow> oid \<Rightarrow> string \<Rightarrow> string \<Rightarrow> int \<Rightarrow> string \<Rightarrow> int \<Rightarrow> store
     \<Rightarrow> (task \<times> store) option" where
  "TaskCreate t0 t1 newId uid d ti pr ca pri db =
     (let t = \<lparr> taskId = newId, userId = uid, date = d, title = trim ti, progress = pr,
                 category = trim ca, priority = pri, createTime = t0, updateTime = t1 \<rparr>
      in if \<not> schemaValid t then None
         else if newId \<in> set (map taskId db) then None
         else Some (t, db @ [t]))"

section \<open>POST /api/tasks\<close>

definition createChains :: "body \<Rightarrow> verror list" where
  "createChains b =
     runChain ''date'' False [(IsString, Date_required)] (field b ''date'') @
     runChain ''title'' False [(IsString, Invalid_value), (NotEmpty, Title_required)] (field b ''title'') @
     runChain ''progress'' True [(IsInt 0 (Some 100), Progress_0_100)] (field b ''progress'') @
     runChain ''category'' True [(IsString, Invalid_value)] (field b ''category'') @
     runChain ''priority'' True [(IsInt 1 (Some 3), Invalid_value)] (field b ''priority'')"

text \<open>
  The handler. The destructuring defaults apply to a missing key only. \<open>both\<close> pairs
  two casts: Mongoose casts every path and fails when one of them fails. The outer
  \<open>None\<close> of \<open>create\<close> is a request outside the model (an \<open>Unmodelled\<close> cast).
\<close>

definition orDefault :: "json option \<Rightarrow> json \<Rightarrow> json" where
  "orDefault v d = (case v of None \<Rightarrow> d | Some x \<Rightarrow> x)"

fun both :: "'a cast \<Rightarrow> 'b cast \<Rightarrow> ('a \<times> 'b) cast" where
  "both Unmodelled y = Unmodelled"
| "both x Unmodelled = Unmodelled"
| "both CastError y = CastError"
| "both x CastError = CastError"
| "both (Cast a) (Cast b) = Cast (a, b)"

definition createCasts :: "body \<Rightarrow> (string \<times> string \<times> int \<times> string \<times> int) cast" where
  "createCasts b =
     both (castString (orDefault (field b ''date'') JNull))
    (both (castString (orDefault (field b ''title'') JNull))
    (both (castNumber (orDefault (field b ''progress'') (JNum 0)))
    (both (castString (orDefault (field b ''category'') (JStr ''general'')))
          (castNumber (orDefault (field b ''priority'') (JNum 1))))))"

definition create ::
  "time \<Rightarrow> time \<Rightarrow> oid \<Rightarrow> caller \<Rightarrow> body \<Rightarrow> store \<Rightarrow> ((failure + task) \<times> store) option" where
  "create t0 t1 newId usr b db =
     (if createChains b \<noteq> [] then Some (Inl (ValidationError (createChains b)), db)
      else
        case createCasts b of
          Unmodelled \<Rightarrow> None
        | CastError \<Rightarrow> Some (Inl InternalError, db)
        | Cast (d, ti, pr, ca, pri) \<Rightarrow>
            (case TaskCreate t0 t1 newId (ownerOf usr) d ti pr ca pri db of
               None \<Rightarrow> Some (Inl InternalError, db)
             | Some (t, db') \<Rightarrow> Some (Inr t, db')))"

section \<open>Queries on the collection\<close>

text \<open>
  \<^verbatim>\<open>findOneAndUpdate\<close> with \<^verbatim>\<open>{ new: true }\<close> changes the first document the filter matches
  and returns it as changed; \<^verbatim>\<open>findOneAndDelete\<close> removes the first match and returns it.
  A change gives the task as changed (\<open>Cast\<close>), or fails on the task it is applied to
  (\<open>CastError\<close>: the query fails and the collection stays as it was), or leaves what the
  record of a task represents (\<open>Unmodelled\<close>).
\<close>

type_synonym change = "task \<Rightarrow> task cast"

fun findOneAndUpdate :: "(task \<Rightarrow> bool) \<Rightarrow> change \<Rightarrow> store \<Rightarrow> (task option \<times> store) cast" where
  "findOneAndUpdate P f [] = Cast (None, [])"
| "findOneAndUpdate P f (t # ts) =
     (if P t then
        (case f t of
           Cast t' \<Rightarrow> Cast (Some t', t' # ts)
         | CastError \<Rightarrow> CastError
         | Unmodelled \<Rightarrow> Unmodelled)
      else
        (case findOneAndUpdate P f ts of
           Cast (r, ts') \<Rightarrow> Cast (r, t # ts')
         | CastError \<Rightarrow> CastError
         | Unmodelled \<Rightarrow> Unmodelled))"

fun findOneAndDelete :: "(task \<Rightarrow> bool) \<Rightarrow> store \<Rightarrow> task option \<times> store" where
  "findOneAndDelete P [] = (None, [])"
| "findOneAndDelete P (t # ts) =
     (if P t then (Some t, ts)
      else (case findOneAndDelete P ts of (r, ts') \<Rightarrow> (r, t # ts')))"

text \<open>
  An ObjectId is kept as its 24 lower-case hexadecimal digits. A string of other than
  12 or 24 characters, or of 24 that are not all hexadecimal digits, is a cast error.
\<close>

definition lowerHex :: "char \<Rightarrow> char" where
  "lowerHex c = (let n = (of_char c :: nat) in if 65 \<le> n \<and> n \<le> 70 then char_of (n + 32) else c)"

definition castObjectId :: "string \<Rightarrow> oid cast" where
  "castObjectId s =
     (if length s = 24 \<and> list_all isHexDigit s then Cast (map lowerHex s)
      else if length s = 12 then Unmodelled
      else CastError)"

fun castObjectIdJson :: "json \<Rightarrow> oid cast" where
  "castObjectIdJson (JStr s) = (case castObjectId s of Cast h \<Rightarrow> Cast h | _ \<Rightarrow> Unmodelled)"
| "castObjectIdJson v = Unmodelled"

text \<open>A date given as a number is that many milliseconds since the epoch.\<close>

fun castDate :: "json \<Rightarrow> time cast" where
  "castDate (JNum q) =
     (case ratInt q of
        Some n \<Rightarrow> if abs n \<le> 8640000000000000 then Cast n else Unmodelled
      | None \<Rightarrow> Unmodelled)"
| "castDate v = Unmodelled"

section \<open>The update document\<close>

text \<open>
  \<^verbatim>\<open>findOneAndUpdate(filter, update)\<close> takes the update document as the caller built
  it. Mongoose moves every top-level key that is not an operator into \<^verbatim>\<open>$set\<close>, drops the
  paths the schema does not have (strict mode), casts each value to its path's type and
  applies the path's setters; it runs no validator (\<^verbatim>\<open>runValidators\<close> is not set). The
  \<^verbatim>\<open>pre('findOneAndUpdate')\<close> hook of Task.js has put \<^verbatim>\<open>updateTime\<close> into \<^verbatim>\<open>$set\<close> before.

  \<open>castUpdate\<close> computes the cast for the documents whose keys are paths, at the top
  level or under \<^verbatim>\<open>$set\<close>. For any other document it is \<open>Unmodelled\<close>: another operator, a
  dotted key, \<^verbatim>\<open>_id\<close>, \<^verbatim>\<open>__v\<close>, a top-level \<^verbatim>\<open>updateTime\<close>, a path given both at the top
  level and under \<^verbatim>\<open>$set\<close>, a value whose cast is \<open>Unmodelled\<close>. What Mongoose and MongoDB
  do with such a document is a parameter of the routes, \<open>mongo\<close> below.
\<close>

record patch =
  p_userId :: "oid option"
  p_date :: "string option"
  p_title :: "string option"
  p_progress :: "int option"
  p_category :: "string option"
  p_priority :: "int option"
  p_createTime :: "time option"

definition applyPatch :: "time \<Rightarrow> patch \<Rightarrow> task \<Rightarrow> task" where
  "applyPatch now p t =
     t \<lparr> userId := (case p_userId p of None \<Rightarrow> userId t | Some v \<Rightarrow> v),
         date := (case p_date p of None \<Rightarrow> date t | Some v \<Rightarrow> v),
         title := (case p_title p of None \<Rightarrow> title t | Some v \<Rightarrow> v),
         progress := (case p_progress p of None \<Rightarrow> progress t | Some v \<Rightarrow> v),
         category := (case p_category p of None \<Rightarrow> category t | Some v \<Rightarrow> v),
         priority := (case p_priority p of None \<Rightarrow> priority t | Some v \<Rightarrow> v),
         createTime := (case p_createTime p of None \<Rightarrow> createTime t | Some v \<Rightarrow> v),
         updateTime := now \<rparr>"

definition plainKey :: "string \<Rightarrow> bool" where
  "plainKey k =
     (k \<noteq> [] \<and> hd k \<noteq> CHR ''$'' \<and> CHR ''.'' \<notin> set k \<and> k \<notin> set [''_id'', ''__v''])"

definition topKeyOk :: "string \<Rightarrow> bool" where
  "topKeyOk k = (k = ''$set'' \<or> (plainKey k \<and> k \<noteq> ''updateTime''))"

definition setOperand :: "body \<Rightarrow> body cast" where
  "setOperand b =
     (case field b ''$set'' of
        None \<Rightarrow> Cast []
      | Some (JObj kvs) \<Rightarrow> if list_all plainKey (map fst kvs) then Cast kvs else Unmodelled
      | Some v \<Rightarrow> Unmodelled)"

definition pathValue :: "body \<Rightarrow> body \<Rightarrow> string \<Rightarrow> json option cast" where
  "pathValue b s k =
     (case (field b k, field s k) of
        (None, None) \<Rightarrow> Cast None
      | (Some v, None) \<Rightarrow> Cast (Some v)
      | (None, Some v) \<Rightarrow> Cast (Some v)
      | (Some v, Some w) \<Rightarrow> Unmodelled)"

definition castPath :: "(json \<Rightarrow> 'a cast) \<Rightarrow> body \<Rightarrow> body \<Rightarrow> string \<Rightarrow> 'a option cast" where
  "castPath c b s k =
     (case pathValue b s k of
        Cast None \<Rightarrow> Cast None
      | Cast (Some v) \<Rightarrow> (case c v of Cast x \<Rightarrow> Cast (Some x) | CastError \<Rightarrow> CastError
                                      | Unmodelled \<Rightarrow> Unmodelled)
      | CastError \<Rightarrow> CastError
      | Unmodelled \<Rightarrow> Unmodelled)"

definition castUpdate :: "body \<Rightarrow> patch cast" where
  "castUpdate b =
     (if \<not> list_all topKeyOk (map fst b) then Unmodelled
      else
        case setOperand b of
          Cast s \<Rightarrow>
            (case both (castPath castObjectIdJson b s ''userId'')
                 (both (castPath castString b s ''date'')
                 (both (castPath castString b s ''title'')
                 (both (castPath castNumber b s ''progress'')
                 (both (castPath castString b s ''category'')
                 (both (castPath castNumber b s ''priority'')
                       (castPath castDate b s ''createTime'')))))) of
               Cast (u, d, ti, pr, ca, pri, ct) \<Rightarrow>
                 Cast \<lparr> p_userId = u, p_date = d, p_title = map_option trim ti,
                        p_progress = pr, p_category = map_option trim ca,
                        p_priority = pri, p_createTime = ct \<rparr>
             | CastError \<Rightarrow> CastError
             | Unmodelled \<Rightarrow> Unmodelled)
        | CastError \<Rightarrow> CastError
        | Unmodelled \<Rightarrow> Unmodelled)"

text \<open>
  Mongoose and MongoDB on the update documents that \<open>castUpdate\<close> does not compute,
  at the time \<open>now\<close> of the \<^verbatim>\<open>pre('findOneAndUpdate')\<close> hook: \<open>None\<close> when the document is
  refused, by a cast error of Mongoose or by MongoDB, whatever the collection holds;
  otherwise the change made to the task the query finds. MongoDB refuses a change that
  gives the task another \<^verbatim>\<open>_id\<close>.
\<close>

type_synonym driver = "time \<Rightarrow> body \<Rightarrow> change option"

definition keepId :: "change \<Rightarrow> change" where
  "keepId f t =
     (case f t of
        Cast t' \<Rightarrow> if taskId t' = taskId t then Cast t' else CastError
      | CastError \<Rightarrow> CastError
      | Unmodelled \<Rightarrow> Unmodelled)"

definition updateOf :: "driver \<Rightarrow> time \<Rightarrow> body \<Rightarrow> change option" where
  "updateOf mongo now b =
     (case castUpdate b of
        Cast p \<Rightarrow> Some (\<lambda>t. Cast (applyPatch now p t))
      | CastError \<Rightarrow> None
      | Unmodelled \<Rightarrow> map_option keepId (mongo now b))"

text \<open>
  The three routes that name a task share their shape: validate, cast the filter
  \<^verbatim>\<open>{ _id: id, userId: req.user.id }\<close>, run the query, answer 404 when it found nothing
  and 500 when it failed. The outer \<open>None\<close> of an update is a change whose result the
  record does not represent.
\<close>

definition owns :: "caller \<Rightarrow> oid \<Rightarrow> task \<Rightarrow> bool" where
  "owns usr i t = (taskId t = i \<and> userId t = ownerOf usr)"

definition runUpdate ::
  "caller \<Rightarrow> string \<Rightarrow> change option \<Rightarrow> store \<Rightarrow> ((failure + task) \<times> store) option" where
  "runUpdate usr i upd db =
     (case castObjectId i of
        Unmodelled \<Rightarrow> None
      | CastError \<Rightarrow> Some (Inl InternalError, db)
      | Cast h \<Rightarrow>
          (case upd of
             None \<Rightarrow> Some (Inl InternalError, db)
           | Some f \<Rightarrow>
               (case findOneAndUpdate (owns usr h) f db of
                  Unmodelled \<Rightarrow> None
                | CastError \<Rightarrow> Some (Inl InternalError, db)
                | Cast (None, db') \<Rightarrow> Some (Inl NotFoundError, db')
                | Cast (Some t, db') \<Rightarrow> Some (Inr t, db'))))"

section \<open>PUT /api/tasks/:id\<close>

definition updateChains :: "string \<Rightarrow> body \<Rightarrow> verror list" where
  "updateChains i b =
     runChain ''id'' False [(IsMongoId, Id_invalid)] (Some (JStr i)) @
     runChain ''date'' True [(IsString, Invalid_value)] (field b ''date'') @
     runChain ''title'' True [(IsString, Invalid_value)] (field b ''title'') @
     runChain ''progress'' True [(IsInt 0 (Some 100), Invalid_value)] (field b ''progress'') @
     runChain ''category'' True [(IsString, Invalid_value)] (field b ''category'') @
     runChain ''priority'' True [(IsInt 1 (Some 3), Invalid_value)] (field b ''priority'')"

text \<open>\<^verbatim>\<open>const updates = { ...req.body }\<close>: the update document is the body.\<close>

definition updatePartial ::
  "driver \<Rightarrow> time \<Rightarrow> caller \<Rightarrow> string \<Rightarrow> body \<Rightarrow> store
     \<Rightarrow> ((failure + task) \<times> store) option" where
  "updatePartial mongo now usr i b db =
     (if updateChains i b \<noteq> [] then Some (Inl (ValidationError (updateChains i b)), db)
      else runUpdate usr i (updateOf mongo now b) db)"

section \<open>PUT /api/tasks/:id/progress\<close>

definition progressChains :: "string \<Rightarrow> body \<Rightarrow> verror list" where
  "progressChains i b =
     runChain ''id'' False [(IsMongoId, Id_invalid)] (Some (JStr i)) @
     runChain ''progress'' False [(IsInt 0 (Some 100), Progress_must_be_0_100)] (field b ''progress'')"

text \<open>The update document is \<^verbatim>\<open>{ progress }\<close>: the one key, whatever else the body holds.\<close>

definition updateProgress ::
  "driver \<Rightarrow> time \<Rightarrow> caller \<Rightarrow> string \<Rightarrow> body \<Rightarrow> store
     \<Rightarrow> ((failure + task) \<times> store) option" where
  "updateProgress mongo now usr i b db =
     (if progressChains i b \<noteq> [] then Some (Inl (ValidationError (progressChains i b)), db)
      else runUpdate usr i
             (updateOf mongo now [(''progress'', orDefault (field b ''progress'') JNull)]) db)"

section \<open>DELETE /api/tasks/:id\<close>

definition deleteChains :: "string \<Rightarrow> verror list" where
  "deleteChains i = runChain ''id'' False [(IsMongoId, Id_invalid)] (Some (JStr i))"

definition deleteTask ::
  "caller \<Rightarrow> string \<Rightarrow> store \<Rightarrow> ((failure + unit) \<times> store) option" where
  "deleteTask usr i db =
     (if deleteChains i \<noteq> [] then Some (Inl (ValidationError (deleteChains i)), db)
      else
        case castObjectId i of
          Unmodelled \<Rightarrow> None
        | CastError \<Rightarrow> Some (Inl InternalError, db)
        | Cast h \<Rightarrow>
            (case findOneAndDelete (owns usr h) db of
               (None, db') \<Rightarrow> Some (Inl NotFoundError, db')
             | (Some t, db') \<Rightarrow> Some (Inr (), db')))"

section \<open>GET /api/tasks and GET /api/tasks/range\<close>

text \<open>
  A query parameter is a string, or an array or object when the query string says so.
  Strings compare byte by byte, a proper prefix first, as MongoDB compares them; that is
  the order of \<open>string\<close> here. \<^verbatim>\<open>sort({ date: 1, createTime: 1 })\<close> is a sort on the pair;
  the order MongoDB gives documents that agree on both is not specified, and here they
  keep the order of the collection.
\<close>

definition sortTasks :: "task list \<Rightarrow> task list" where
  "sortTasks ts = sort_key (\<lambda>t. (date t, createTime t)) ts"

definition truthyStr :: "json option \<Rightarrow> bool" where
  "truthyStr v = (case v of Some (JStr s) \<Rightarrow> s \<noteq> [] | _ \<Rightarrow> False)"

definition listChains :: "json option \<Rightarrow> verror list" where
  "listChains d = runChain ''date'' True [(IsString, Date_should_be_string)] d"

definition listTasks :: "caller \<Rightarrow> json option \<Rightarrow> store \<Rightarrow> failure + task list" where
  "listTasks usr d db =
     (if listChains d \<noteq> [] then Inl (ValidationError (listChains d))
      else Inr (sortTasks (filter (\<lambda>t. userId t = ownerOf usr \<and>
                                       (if truthyStr d then Some (JStr (date t)) = d else True)) db)))"

definition rangeChains :: "json option \<Rightarrow> json option \<Rightarrow> verror list" where
  "rangeChains s e =
     runChain ''start'' False [(IsString, Start_required)] s @
     runChain ''end'' False [(IsString, End_required)] e"

definition inWindow :: "string \<Rightarrow> string \<Rightarrow> task \<Rightarrow> bool" where
  "inWindow s e t = (s \<le> date t \<and> date t \<le> e)"

definition listRange :: "caller \<Rightarrow> json option \<Rightarrow> json option \<Rightarrow> store \<Rightarrow> failure + task list" where
  "listRange usr s e db =
     (if rangeChains s e \<noteq> [] then Inl (ValidationError (rangeChains s e))
      else
        case (s, e) of
          (Some (JStr a), Some (JStr z)) \<Rightarrow>
            Inr (sortTasks (filter (\<lambda>t. userId t = ownerOf usr \<and> inWindow a z t) db))
        | _ \<Rightarrow> Inl InternalError)"

section \<open>The JavaScript Date behind the month window\<close>

text \<open>
  \<^verbatim>\<open>new Date(year, month, 0).getDate()\<close>, after ECMA-262: \<^verbatim>\<open>MakeDay\<close> counts the days
  from 1 January 1970 to day \<open>dt\<close> of month index \<open>m\<close> (it carries a month index of 12 into
  the next year), \<^verbatim>\<open>TimeClip\<close> makes a date more than 100,000,000 days from the epoch
  invalid, and \<^verbatim>\<open>DateFromTime\<close> reads the day of the month back from the day number.
  Both conversions are in the server's local time, which shifts them alike as long as
  the local midnight of the day exists: the server's time zone is taken to be one that
  has skipped the last day of no month since 1970 (the Line Islands skipped
  31 December 1994). \<open>YearFromDay\<close> is for days from 1970 on.
\<close>

definition isLeap :: "int \<Rightarrow> bool" where
  "isLeap y = (y mod 4 = 0 \<and> (y mod 400 = 0 \<or> y mod 100 \<noteq> 0))"

definition DaysInYear :: "int \<Rightarrow> int" where
  "DaysInYear y = (if isLeap y then 366 else 365)"

definition DayFromYear :: "int \<Rightarrow> int" where
  "DayFromYear y =
     365 * (y - 1970) + (y - 1969) div 4 - (y - 1901) div 100 + (y - 1601) div 400"

definition monthStart :: "int \<Rightarrow> int \<Rightarrow> int" where
  "monthStart l mn =
     (if mn = 0 then 0 else if mn = 1 then 31 else if mn = 2 then 59 + l
      else if mn = 3 then 90 + l else if mn = 4 then 120 + l else if mn = 5 then 151 + l
      else if mn = 6 then 181 + l else if mn = 7 then 212 + l else if mn = 8 then 243 + l
      else if mn = 9 then 273 + l else if mn = 10 then 304 + l else 334 + l)"

definition leapDay :: "int \<Rightarrow> int" where
  "leapDay y = (if isLeap y then 1 else 0)"

definition MakeDay :: "int \<Rightarrow> int \<Rightarrow> int \<Rightarrow> int" where
  "MakeDay y m dt =
     (let ym = y + m div 12; mn = m mod 12
      in DayFromYear ym + monthStart (leapDay ym) mn + dt - 1)"

fun yearSearch :: "nat \<Rightarrow> int \<Rightarrow> int \<Rightarrow> int" where
  "yearSearch 0 y d = y"
| "yearSearch (Suc n) y d = (if DayFromYear (y + 1) \<le> d then yearSearch n (y + 1) d else y)"

definition YearFromDay :: "int \<Rightarrow> int" where
  "YearFromDay d = yearSearch (nat (d div 365 - d div 366)) (1970 + d div 366) d"

definition DateFromDay :: "int \<Rightarrow> int" where
  "DateFromDay d =
     (let y = YearFromDay d; l = leapDay y; w = d - DayFromYear y
      in if w < 31 then w + 1
         else if w < 59 + l then w - 30
         else if w < 90 + l then w - 58 - l
         else if w < 120 + l then w - 89 - l
         else if w < 151 + l then w - 119 - l
         else if w < 181 + l then w - 150 - l
         else if w < 212 + l then w - 180 - l
         else if w < 243 + l then w - 211 - l
         else if w < 273 + l then w - 242 - l
         else if w < 304 + l then w - 272 - l
         else if w < 334 + l then w - 303 - l
         else w - 333 - l)"

text \<open>\<open>None\<close> is \<^verbatim>\<open>NaN\<close>, what \<^verbatim>\<open>getDate\<close> gives for an invalid date.\<close>

definition getDateOfNewDate :: "int \<Rightarrow> int \<Rightarrow> int \<Rightarrow> int option" where
  "getDateOfNewDate y m dt =
     (let d = MakeDay y m dt in if abs d \<le> 100000000 then Some (DateFromDay d) else None)"

subsection \<open>Numbers as text\<close>

text \<open>The decimal digits of a number that is not negative.\<close>

function showNat :: "int \<Rightarrow> string" where
  "showNat n =
     (if n < 10 then [char_of (nat (48 + n))]
      else showNat (n div 10) @ [char_of (nat (48 + n mod 10))])"
  by pat_completeness auto
termination
  by (relation "measure nat") auto

declare showNat.simps [simp del]

definition showInt :: "int \<Rightarrow> string" where
  "showInt n = (if n < 0 then CHR ''-'' # showNat (- n) else showNat n)"

text \<open>\<^verbatim>\<open>(n) => n.toString().padStart(2, '0')\<close>\<close>

definition pad :: "int option \<Rightarrow> string" where
  "pad n =
     (let s = (case n of None \<Rightarrow> ''NaN'' | Some k \<Rightarrow> showInt k)
      in replicate (2 - length s) CHR ''0'' @ s)"

text \<open>
  \<^verbatim>\<open>Number(s)\<close> for a string the \<^verbatim>\<open>isInt\<close> validator let through is the integer that
  the digits denote, as long as that is a safe integer, one below \<open>2^53\<close> in magnitude,
  and then a template literal prints its decimal digits. Beyond, \<^verbatim>\<open>Number\<close> gives the
  nearest double, which is beyond every date, and the template literal prints it in the
  shortest digits that read back as that double, in exponent notation from \<^verbatim>\<open>1e21\<close> on:
  that text is the parameter \<open>big\<close>, a function of the integer the digits denote.
\<close>

definition jsNumber :: "string \<Rightarrow> int option" where
  "jsNumber s = intLiteral s"

definition yearText :: "(int \<Rightarrow> string) \<Rightarrow> int \<Rightarrow> string" where
  "yearText big year = (if abs year < 2 ^ 53 then showInt year else big year)"

section \<open>JavaScript numbers\<close>

text \<open>
  A JavaScript number is an IEEE 754 double: a rational \<open>m * 2^e\<close> with \<open>m\<close> below \<open>2^53\<close>
  in magnitude. A sum or a quotient of two doubles is the exact one rounded to the
  nearest double, and to the one with the even \<open>m\<close> of two that are equally near: \<open>fl\<close>.
  The range of the exponent is not represented: no figure here is beyond \<^verbatim>\<open>1.8e308\<close> or,
  but for 0, within \<^verbatim>\<open>2.3e-308\<close> of 0. \<open>bitLen n\<close> is the number of binary digits of \<open>n\<close>,
  \<open>expo x\<close> the exponent \<open>e\<close> with \<open>2^e \<le> x < 2^(e+1)\<close>.
\<close>

function bitLen :: "int \<Rightarrow> int" where
  "bitLen n = (if n \<le> 0 then 0 else bitLen (n div 2) + 1)"
  by pat_completeness auto
termination
  by (relation "measure nat") auto

declare bitLen.simps [simp del]

definition expo :: "rat \<Rightarrow> int" where
  "expo x = (if 1 \<le> x then bitLen (floor x) - 1 else - bitLen (ceiling (1 / x) - 1))"

definition roundEven :: "rat \<Rightarrow> int" where
  "roundEven y =
     (let f = floor y; d = y - of_int f
      in if d < 1 / 2 then f else if 1 / 2 < d then f + 1 else if even f then f else f + 1)"

definition fl :: "rat \<Rightarrow> rat" where
  "fl x =
     (if x = 0 then 0
      else let u = 2 powi (expo (abs x) - 52) in of_int (roundEven (x / u)) * u)"

text \<open>
  \<^verbatim>\<open>Math.round(x)\<close> is the integer nearest to \<open>x\<close>, the larger one of two that are equally
  near.
\<close>

definition MathRound :: "rat \<Rightarrow> int" where
  "MathRound x = floor (x + 1 / 2)"

section \<open>GET /api/stats/monthly\<close>

text \<open>
  \<^verbatim>\<open>Math.round(sum / count)\<close>, with \<open>None\<close> for the \<^verbatim>\<open>NaN\<close> or infinity of a division by
  zero. A count is the length of an array or counts its elements, and is exact.
\<close>

definition roundDiv :: "rat \<Rightarrow> nat \<Rightarrow> int option" where
  "roundDiv s n = (if n = 0 then None else Some (MathRound (fl (s / of_nat n))))"

text \<open>\<^verbatim>\<open>t.progress || 0\<close>\<close>

definition orZero :: "int \<Rightarrow> int" where
  "orZero n = (if n = 0 then 0 else n)"

text \<open>\<^verbatim>\<open>tasks.reduce((sum, t) => sum + (t.progress || 0), 0)\<close>\<close>

definition sumProgress :: "task list \<Rightarrow> rat" where
  "sumProgress ts = foldl (\<lambda>sum t. fl (sum + of_int (orZero (progress t)))) 0 ts"

text \<open>
  The \<^verbatim>\<open>daily\<close> object, its keys in the order they were first set, which is the order
  \<^verbatim>\<open>Object.entries\<close> lists keys that are not array indices.
\<close>

fun bumpDaily :: "task \<Rightarrow> (string \<times> nat \<times> rat) list \<Rightarrow> (string \<times> nat \<times> rat) list" where
  "bumpDaily t [] = [(date t, 0 + 1, fl (0 + of_int (orZero (progress t))))]"
| "bumpDaily t ((d, c, s) # r) =
     (if d = date t then (d, c + 1, fl (s + of_int (orZero (progress t)))) # r
      else (d, c, s) # bumpDaily t r)"

definition dailyOf :: "task list \<Rightarrow> (string \<times> nat \<times> rat) list" where
  "dailyOf ts = foldl (\<lambda>daily t. bumpDaily t daily) [] ts"

record monthlyStats =
  total' :: nat
  averageProgress :: "int option"
  daily :: "(string \<times> nat \<times> int option) list"

definition monthlyChains :: "string option \<Rightarrow> string option \<Rightarrow> verror list" where
  "monthlyChains y m =
     runChain ''year'' False [(IsInt 1970 None, Year_invalid)] (map_option JStr y) @
     runChain ''month'' False [(IsInt 1 (Some 12), Month_1_12)] (map_option JStr m)"

definition monthStartStr :: "(int \<Rightarrow> string) \<Rightarrow> int \<Rightarrow> int \<Rightarrow> string" where
  "monthStartStr big year month = yearText big year @ ''-'' @ pad (Some month) @ ''-01''"

definition monthEndStr :: "(int \<Rightarrow> string) \<Rightarrow> int \<Rightarrow> int \<Rightarrow> string" where
  "monthEndStr big year month =
     yearText big year @ ''-'' @ pad (Some month) @ ''-'' @ pad (getDateOfNewDate year month 0)"

definition monthTasks :: "(int \<Rightarrow> string) \<Rightarrow> caller \<Rightarrow> int \<Rightarrow> int \<Rightarrow> store \<Rightarrow> task list" where
  "monthTasks big usr year month db =
     filter (\<lambda>t. userId t = ownerOf usr \<and>
                 inWindow (monthStartStr big year month) (monthEndStr big year month) t) db"

definition monthlyOf :: "task list \<Rightarrow> monthlyStats" where
  "monthlyOf tasks =
     \<lparr> total' = length tasks,
       averageProgress =
         (if length tasks = 0 then Some 0 else roundDiv (sumProgress tasks) (length tasks)),
       daily = map (\<lambda>(d, count, s). (d, count, roundDiv s count)) (dailyOf tasks) \<rparr>"

text \<open>
  The query parameters \<^verbatim>\<open>year\<close> and \<^verbatim>\<open>month\<close> are taken as strings (\<open>None\<close> when
  absent). The outer \<open>None\<close> is for parameters that are not integers, which the
  validators do not let through.
\<close>

definition monthly ::
  "(int \<Rightarrow> string) \<Rightarrow> caller \<Rightarrow> string option \<Rightarrow> string option \<Rightarrow> store
     \<Rightarrow> (failure + monthlyStats) option" where
  "monthly big usr y m db =
     (if monthlyChains y m \<noteq> [] then Some (Inl (ValidationError (monthlyChains y m)))
      else
        case (Option.bind y jsNumber, Option.bind m jsNumber) of
          (Some year, Some month) \<Rightarrow>
            Some (Inr (monthlyOf (monthTasks big usr year month db)))
        | _ \<Rightarrow> None)"

section \<open>GET /api/stats/daily-completion\<close>

text \<open>
  Mongoose does not cast an aggregation pipeline: \<^verbatim>\<open>$match: { userId: req.user.id }\<close>
  compares the stored ObjectId with \<^verbatim>\<open>req.user.id\<close> as it is, and a string equals no
  ObjectId. \<^verbatim>\<open>$group\<close> makes one group for each date, \<^verbatim>\<open>$sort\<close> orders the groups by
  date. \<^verbatim>\<open>$avg\<close> adds the values of a group in twice the precision of a double, rounds
  the total to a double and divides it by the count.
\<close>

fun aggMatch :: "caller \<Rightarrow> task \<Rightarrow> bool" where
  "aggMatch (IdString s) t = False"
| "aggMatch (IdObject h) t = (userId t = h)"

definition groupOn :: "string \<Rightarrow> task list \<Rightarrow> task list" where
  "groupOn d ts = filter (\<lambda>t. date t = d) ts"

definition dailyCompletion :: "caller \<Rightarrow> store \<Rightarrow> (string \<times> int option \<times> nat) list" where
  "dailyCompletion usr db =
     (let ts = filter (aggMatch usr) db
      in map (\<lambda>d. (d, roundDiv (fl (of_int (sum_list (map progress (groupOn d ts)))))
                               (length (groupOn d ts)),
                    length (groupOn d ts)))
             (sort (remdups (map date ts))))"

section \<open>Notions the properties use\<close>

text \<open>
  A record matches the id a request gives and the caller when the id is the 24
  hexadecimal digits of the record's \<^verbatim>\<open>_id\<close> and the record's \<^verbatim>\<open>userId\<close> is the caller's.
\<close>

definition matches :: "caller \<Rightarrow> string \<Rightarrow> task \<Rightarrow> bool" where
  "matches usr i t = (castObjectId i = Cast (taskId t) \<and> userId t = ownerOf usr)"

text \<open>The update document of the progress route, and the patch it is cast to.\<close>

definition progressDoc :: "body \<Rightarrow> body" where
  "progressDoc b = [(''progress'', orDefault (field b ''progress'') JNull)]"

definition setProgress :: "int \<Rightarrow> patch" where
  "setProgress n = \<lparr> p_userId = None, p_date = None, p_title = None, p_progress = Some n,
     p_category = None, p_priority = None, p_createTime = None \<rparr>"

text \<open>Everything of a task but its progress and its \<^verbatim>\<open>updateTime\<close>.\<close>

definition frame :: "task \<Rightarrow> oid \<times> oid \<times> string \<times> string \<times> string \<times> int \<times> time" where
  "frame t = (taskId t, userId t, date t, title t, category t, priority t, createTime t)"

text \<open>
  The calendar: the days of month \<open>m\<close> of year \<open>y\<close>, and a day written \<^verbatim>\<open>YYYY-MM-DD\<close>
  with month and day in two digits.
\<close>

definition daysInMonth :: "int \<Rightarrow> int \<Rightarrow> int" where
  "daysInMonth y m =
     (if m = 2 then (if isLeap y then 29 else 28)
      else if m \<in> set [4, 6, 9, 11] then 30 else 31)"

definition twoDigits :: "int \<Rightarrow> string" where
  "twoDigits n = (if n < 10 then CHR ''0'' # showInt n else showInt n)"

definition isoDate :: "int \<Rightarrow> int \<Rightarrow> int \<Rightarrow> string" where
  "isoDate y m d = showInt y @ ''-'' @ twoDigits m @ ''-'' @ twoDigits d"




definition weight :: "task list \<Rightarrow> int" where
  "weight ts = sum_list (map (\<lambda>t. abs (progress t)) ts)"


text \<open>The tasks of a collection that belong to the caller.\<close>

definition ownTasks :: "caller \<Rightarrow> store \<Rightarrow> store" where
  "ownTasks usr db = filter (\<lambda>t. userId t = ownerOf usr) db"

text \<open>The bounds of the schema on a stored task, and a JSON number that is an integer.\<close>

definition inBounds :: "task \<Rightarrow> bool" where
  "inBounds t = (0 \<le> progress t \<and> progress t \<le> 100 \<and> priority t \<in> set [1, 2, 3])"

definition whole :: "int \<Rightarrow> json" where
  "whole n = JNum (of_int n)"

section \<open>Example data\<close>

definition userA :: oid where "userA = ''aaaaaaaaaaaaaaaaaaaaaaaa''"
definition userB :: oid where "userB = ''bbbbbbbbbbbbbbbbbbbbbbbb''"
definition id1 :: oid where "id1 = ''0123456789abcdef01234567''"
definition id2 :: oid where "id2 = ''0123456789abcdef01234568''"

text \<open>The task of the spec's scenario, as \<open>create\<close> stores it for user A.\<close>

definition weeklyReport :: task where
  "weeklyReport =
     \<lparr> taskId = id1, userId = userA, date = ''2024-05-01'', title = ''weekly report'',
       progress = 0, category = ''general'', priority = 1,
       createTime = 1000, updateTime = 1001 \<rparr>"

definition plainBody :: body where
  "plainBody = [(''date'', JStr ''2024-05-01''), (''title'', JStr ''weekly report'')]"

definition forgedBody :: body where
  "forgedBody =
     [(''_id'', JStr id2), (''userId'', JStr userB), (''ownerId'', JStr userB),
      (''createTime'', JNum 0), (''updateTime'', JNum 0)] @ plainBody"

definition reassigned :: task where
  "reassigned = weeklyReport\<lparr>userId := userB, createTime := 0, updateTime := 2000\<rparr>"

definition outOfBounds :: task where
  "outOfBounds = weeklyReport\<lparr>progress := 500, priority := 7, updateTime := 2000\<rparr>"

definition halfDone :: task where
  "halfDone = weeklyReport\<lparr>progress := 50, updateTime := 2000\<rparr>"

definition id3 :: oid where "id3 = ''0123456789abcdef01234569''"




definition leapDayTask :: task where
  "leapDayTask = weeklyReport\<lparr>date := ''2024-02-29'', progress := 40\<rparr>"

definition marchTask :: task where
  "marchTask = weeklyReport\<lparr>taskId := id2, date := ''2024-03-01''\<rparr>"

definition othersTask :: task where
  "othersTask = weeklyReport\<lparr>taskId := id3, userId := userB, date := ''2024-02-10''\<rparr>"

definition farFuture :: task where
  "farFuture = weeklyReport\<lparr>date := ''300000-02-30''\<rparr>"

definition handedOver :: task where
  "handedOver = weeklyReport\<lparr>userId := userB, updateTime := 2000\<rparr>"




definition twoOwners :: store where
  "twoOwners = [weeklyReport, othersTask]"

section \<open>Validation and casts\<close>

lemma ratInt_of_int [simp]: "ratInt (of_int n) = Some n"
  by (simp add: ratInt_def)

lemma ratInt_numeral [simp]: "ratInt (numeral k) = Some (numeral k)"
  using ratInt_of_int [of "numeral k"] by simp

lemma ratInt_0 [simp]: "ratInt 0 = Some 0"
  using ratInt_of_int [of 0] by simp

lemma ratInt_1 [simp]: "ratInt 1 = Some 1"
  using ratInt_of_int [of 1] by simp

text \<open>A value the \<^verbatim>\<open>isInt\<close> validator lets through is cast to a number in the range, or is an array.\<close>

lemma isInt_cast:
  assumes "check (IsInt lo (Some hi)) (Some v)" and "- (2 ^ 53) < lo" and "hi < 2 ^ 53"
  shows "castNumber v = CastError \<or> (\<exists>n. castNumber v = Cast n \<and> lo \<le> n \<and> n \<le> hi)"
proof (cases v)
  case (JNum q)
  with assms show ?thesis
    by (auto simp: inRange_def split: option.splits if_splits)
next
  case (JStr s)
  with assms show ?thesis
    by (auto simp: inRange_def split: option.splits if_splits)
qed (use assms in \<open>auto simp: inRange_def\<close>)

lemma failing_0: "failing vd v = 0 \<longleftrightarrow> check vd v"
proof (cases vd)
  case IsString
  then show ?thesis by simp
next
  case NotEmpty
  then show ?thesis
    by (cases v; cases "the v") (auto simp: list_all_iff filter_empty_conv)
next
  case (IsInt lo hi)
  then show ?thesis
    by (cases v; cases "the v") (auto simp: list_all_iff filter_empty_conv)
next
  case IsMongoId
  then show ?thesis
    by (cases v; cases "the v") (auto simp: list_all_iff filter_empty_conv)
qed

lemma runChain_nil_required:
  "runChain name False vs v = [] \<longleftrightarrow> list_all (\<lambda>(vd, m). check vd v) vs"
  by (induction vs) (auto simp: runChain_def failing_0)

lemma runChain_nil_optional:
  "runChain name True vs v = [] \<longleftrightarrow> v = None \<or> list_all (\<lambda>(vd, m). check vd v) vs"
  using runChain_nil_required [of name vs v] by (cases v) (simp_all add: runChain_def)

lemma check_IsString: "check IsString v \<longleftrightarrow> (\<exists>s. v = Some (JStr s))"
  by (cases v; cases "the v") auto

section \<open>Properties of create\<close>

lemma createChains_nil:
  "createChains b = [] \<longleftrightarrow>
     (\<exists>d. field b ''date'' = Some (JStr d)) \<and>
     (\<exists>ti. field b ''title'' = Some (JStr ti) \<and> ti \<noteq> []) \<and>
     (field b ''progress'' = None \<or> check (IsInt 0 (Some 100)) (field b ''progress'')) \<and>
     (field b ''category'' = None \<or> (\<exists>c. field b ''category'' = Some (JStr c))) \<and>
     (field b ''priority'' = None \<or> check (IsInt 1 (Some 3)) (field b ''priority''))"
  by (auto simp: createChains_def runChain_nil_required runChain_nil_optional check_IsString)

text \<open>Every request to \<open>create\<close> is inside the model: the validators leave no value whose cast is not.\<close>

lemma create_modelled: "create t0 t1 newId usr b db \<noteq> None"
proof (cases "createChains b = []")
  case False
  then show ?thesis by (simp add: create_def)
next
  case True
  then obtain d ti where d: "field b ''date'' = Some (JStr d)"
    and ti: "field b ''title'' = Some (JStr ti)"
    and pr: "field b ''progress'' = None \<or> check (IsInt 0 (Some 100)) (field b ''progress'')"
    and ca: "field b ''category'' = None \<or> (\<exists>c. field b ''category'' = Some (JStr c))"
    and pri: "field b ''priority'' = None \<or> check (IsInt 1 (Some 3)) (field b ''priority'')"
    unfolding createChains_nil by blast
  have 1: "castNumber (orDefault (field b ''progress'') (JNum 0)) \<noteq> Unmodelled"
    using pr isInt_cast [of 0 100 "the (field b ''progress'')"]
    by (cases "field b ''progress''") (auto simp: orDefault_def)
  have 2: "castNumber (orDefault (field b ''priority'') (JNum 1)) \<noteq> Unmodelled"
    using pri isInt_cast [of 1 3 "the (field b ''priority'')"]
    by (cases "field b ''priority''") (auto simp: orDefault_def)
  have 3: "castString (orDefault (field b ''category'') (JStr ''general'')) \<noteq> Unmodelled"
    using ca by (auto simp: orDefault_def)
  have "createCasts b \<noteq> Unmodelled"
    using 1 2 3 d ti unfolding createCasts_def
    by (cases "castNumber (orDefault (field b ''progress'') (JNum 0))";
        cases "castNumber (orDefault (field b ''priority'') (JNum 1))";
        cases "castString (orDefault (field b ''category'') (JStr ''general''))")
       (auto simp: orDefault_def)
  then show ?thesis
    by (auto simp: create_def split: cast.splits option.splits)
qed

lemma create_fields_only:
  assumes "field b ''date'' = field b' ''date''" "field b ''title'' = field b' ''title''"
    "field b ''progress'' = field b' ''progress''" "field b ''category'' = field b' ''category''"
    "field b ''priority'' = field b' ''priority''"
  shows "create t0 t1 newId usr b db = create t0 t1 newId usr b' db"
  using assms by (simp add: create_def createChains_def createCasts_def)

lemma create_Inr:
  assumes "create t0 t1 newId usr b db = Some (Inr t, db')"
  shows "taskId t = newId \<and> userId t = ownerOf usr \<and> createTime t = t0 \<and>
    updateTime t = t1 \<and> db' = db @ [t] \<and> schemaValid t"
  using assms
  by (auto simp: create_def TaskCreate_def Let_def
      split: if_splits cast.splits option.splits prod.splits)

lemma create_plainBody:
  "create 1000 1001 id1 (IdString userA) plainBody [] = Some (Inr weeklyReport, [weeklyReport])"
  by code_simp

text \<open>
  C10. \<open>create\<close> reads the five keys it destructures and nothing else of the body: two
  bodies that agree on \<^verbatim>\<open>date\<close>, \<^verbatim>\<open>title\<close>, \<^verbatim>\<open>progress\<close>, \<^verbatim>\<open>category\<close> and \<^verbatim>\<open>priority\<close> have
  the same outcome, whatever \<^verbatim>\<open>_id\<close>, \<^verbatim>\<open>userId\<close>, \<^verbatim>\<open>createTime\<close> or \<^verbatim>\<open>updateTime\<close> they
  carry. The task a successful call stores belongs to the authenticated caller, has the
  identifier the driver generated and the two readings of the server's clock.
\<close>

theorem create_ignores_forged_fields:
  "(field b ''date'' = field b' ''date'' \<and> field b ''title'' = field b' ''title'' \<and>
    field b ''progress'' = field b' ''progress'' \<and>
    field b ''category'' = field b' ''category'' \<and>
    field b ''priority'' = field b' ''priority''
      \<longrightarrow> create t0 t1 newId usr b db = create t0 t1 newId usr b' db) \<and>
   (create t0 t1 newId usr b db = Some (Inr t, db')
      \<longrightarrow> taskId t = newId \<and> userId t = ownerOf usr \<and> createTime t = t0 \<and>
          updateTime t = t1 \<and> db' = db @ [t])"
  using create_fields_only [of b b' t0 t1 newId usr db]
    create_Inr [of t0 t1 newId usr b db t db']
  by blast

theorem create_ignores_forged_fields_witness:
  "create 1000 1001 id1 (IdString userA) forgedBody [] = Some (Inr weeklyReport, [weeklyReport]) \<and>
   userId weeklyReport = userA \<and> createTime weeklyReport = 1000 \<and>
   updateTime weeklyReport = 1001"
proof -
  have same: "field forgedBody ''date'' = field plainBody ''date'' \<and>
      field forgedBody ''title'' = field plainBody ''title'' \<and>
      field forgedBody ''progress'' = field plainBody ''progress'' \<and>
      field forgedBody ''category'' = field plainBody ''category'' \<and>
      field forgedBody ''priority'' = field plainBody ''priority''"
    by (simp add: forgedBody_def plainBody_def field_def)
  note inst = create_ignores_forged_fields [of forgedBody plainBody 1000 1001 id1
      "IdString userA" "[]" weeklyReport "[weeklyReport]"]
  have eq: "create 1000 1001 id1 (IdString userA) forgedBody [] =
      Some (Inr weeklyReport, [weeklyReport])"
    using inst same create_plainBody by metis
  then show ?thesis
    using inst by simp
qed

text \<open>
  C4. What \<open>create\<close> does with a title of three spaces: \<^verbatim>\<open>notEmpty()\<close> lets it through
  (nothing trims it first), the schema's \<^verbatim>\<open>trim\<close> makes it empty, \<^verbatim>\<open>required\<close> rejects it
  inside \<^verbatim>\<open>Task.create\<close>, and the handler's \<^verbatim>\<open>catch\<close> answers 500. Nothing is stored.
\<close>

theorem create_whitespace_title_internal_error:
  "create 1000 1001 id1 (IdString userA)
     [(''date'', JStr ''2024-05-01''), (''title'', JStr ''   '')] [] =
   Some (Inl InternalError, [])"
  by code_simp

section \<open>Properties of the routes that name a task\<close>

lemma findOneAndUpdate_nomatch:
  "filter P db = [] \<Longrightarrow> findOneAndUpdate P f db = Cast (None, db)"
  by (induction db) (auto split: if_splits)

lemma findOneAndUpdate_match:
  "filter P xs = [] \<Longrightarrow> P t \<Longrightarrow>
    findOneAndUpdate P f (xs @ t # ys) =
      (case f t of
         Cast t' \<Rightarrow> Cast (Some t', xs @ t' # ys)
       | CastError \<Rightarrow> CastError
       | Unmodelled \<Rightarrow> Unmodelled)"
  by (induction xs) (auto split: if_splits cast.splits)

lemma filter_nonempty_split:
  "filter P db \<noteq> [] \<Longrightarrow> \<exists>xs t ys. db = xs @ t # ys \<and> filter P xs = [] \<and> P t"
proof (induction db)
  case Nil
  then show ?case by simp
next
  case (Cons a db)
  show ?case
  proof (cases "P a")
    case True
    then have "a # db = [] @ a # db \<and> filter P [] = [] \<and> P a" by simp
    then show ?thesis by blast
  next
    case False
    with Cons obtain xs t ys where "db = xs @ t # ys" "filter P xs = []" "P t" by auto
    with False have "a # db = (a # xs) @ t # ys \<and> filter P (a # xs) = [] \<and> P t" by simp
    then show ?thesis by blast
  qed
qed

lemma findOneAndDelete_nomatch:
  "filter P db = [] \<Longrightarrow> findOneAndDelete P db = (None, db)"
  by (induction db) (auto split: if_splits)

lemma findOneAndDelete_match:
  "filter P xs = [] \<Longrightarrow> P t \<Longrightarrow> findOneAndDelete P (xs @ t # ys) = (Some t, xs @ ys)"
  by (induction xs) (auto split: if_splits)

lemma findOneAndDelete_None_iff:
  "fst (findOneAndDelete P db) = None \<longleftrightarrow> filter P db = []"
proof
  assume "fst (findOneAndDelete P db) = None"
  show "filter P db = []"
  proof (rule ccontr)
    assume "filter P db \<noteq> []"
    then obtain xs t ys where "db = xs @ t # ys" "filter P xs = []" "P t"
      using filter_nonempty_split by blast
    then have "fst (findOneAndDelete P db) = Some t"
      by (simp add: findOneAndDelete_match)
    with \<open>fst (findOneAndDelete P db) = None\<close> show False by simp
  qed
qed (simp add: findOneAndDelete_nomatch)

lemma findOneAndDelete_cases:
  "findOneAndDelete P db = (None, db) \<or>
   (\<exists>xs t ys. db = xs @ t # ys \<and> filter P xs = [] \<and> P t \<and>
      findOneAndDelete P db = (Some t, xs @ ys))"
proof (cases "filter P db = []")
  case True
  then show ?thesis by (simp add: findOneAndDelete_nomatch)
next
  case False
  then obtain xs t ys where "db = xs @ t # ys" "filter P xs = []" "P t"
    using filter_nonempty_split by blast
  then show ?thesis using findOneAndDelete_match [of P xs t ys] by blast
qed

lemma matches_owns: "castObjectId i = Cast h \<Longrightarrow> matches usr i = owns usr h"
  by (auto simp: matches_def owns_def fun_eq_iff)

lemma isHexDigit_not_x: "isHexDigit c \<Longrightarrow> c \<notin> set ''xhXH''"
  by (auto simp: isHexDigit_def)

lemma castObjectId_isMongoId:
  assumes "castObjectId i = Cast h"
  shows "isMongoIdStr i"
proof -
  from assms have len: "length i = 24" and hex: "list_all isHexDigit i"
    by (auto simp: castObjectId_def split: if_splits)
  from len obtain a b r where i: "i = a # b # r"
    by (cases i; cases "tl i") auto
  with hex have "isHexDigit b" by simp
  then have "take 2 i \<notin> set [''0x'', ''0h'', ''0X'', ''0H'']"
    using i isHexDigit_not_x [of b] by auto
  with len hex show ?thesis
    by (auto simp: isMongoIdStr_def isHexadecimal_def)
qed

text \<open>An id that the validator lets through is an ObjectId or a cast error: 24 characters.\<close>

lemma isMongoId_cast: "isMongoIdStr i \<Longrightarrow> castObjectId i \<noteq> Unmodelled"
  by (auto simp: castObjectId_def isMongoIdStr_def)

lemma idChain_nil:
  "runChain ''id'' False [(IsMongoId, Id_invalid)] (Some (JStr i)) = [] \<longleftrightarrow> isMongoIdStr i"
  by (simp add: runChain_def)

lemma deleteChains_nil: "deleteChains i = [] \<longleftrightarrow> isMongoIdStr i"
  by (simp add: deleteChains_def idChain_nil)

lemma updateChains_id: "updateChains i b = [] \<Longrightarrow> isMongoIdStr i"
  by (simp add: updateChains_def idChain_nil)

lemma progressChains_nil:
  "progressChains i b = [] \<longleftrightarrow>
     isMongoIdStr i \<and> check (IsInt 0 (Some 100)) (field b ''progress'')"
  by (simp add: progressChains_def idChain_nil runChain_nil_required)

lemma deleteTask_valid:
  assumes "castObjectId i = Cast h"
  shows "deleteTask usr i db =
    (case findOneAndDelete (owns usr h) db of
       (None, db') \<Rightarrow> Some (Inl NotFoundError, db')
     | (Some t, db') \<Rightarrow> Some (Inr (), db'))"
  using assms castObjectId_isMongoId [OF assms]
  by (simp add: deleteTask_def deleteChains_nil)

lemma deleteTask_NotFound_iff:
  assumes "castObjectId i = Cast h"
  shows "(map_option fst (deleteTask usr i db) = Some (Inl NotFoundError)) =
         (filter (matches usr i) db = [])"
  using findOneAndDelete_None_iff [of "owns usr h" db]
  by (cases "findOneAndDelete (owns usr h) db")
     (auto simp: deleteTask_valid [OF assms] matches_owns [OF assms] split: option.splits)

text \<open>What an update does, by whether a record matches the id and the caller.\<close>

lemma runUpdate_nomatch_owns:
  assumes "castObjectId i = Cast h" "filter (owns usr h) db = []"
  shows "runUpdate usr i (Some f) db = Some (Inl NotFoundError, db)"
  using assms by (simp add: runUpdate_def findOneAndUpdate_nomatch)

lemma runUpdate_match:
  assumes "castObjectId i = Cast h" "filter (owns usr h) xs = []" "owns usr h t"
  shows "runUpdate usr i (Some f) (xs @ t # ys) =
    (case f t of
       Cast t' \<Rightarrow> Some (Inr t', xs @ t' # ys)
     | CastError \<Rightarrow> Some (Inl InternalError, xs @ t # ys)
     | Unmodelled \<Rightarrow> None)"
  using assms by (simp add: runUpdate_def findOneAndUpdate_match split: cast.splits)

lemma runUpdate_cases:
  assumes "castObjectId i = Cast h"
  obtains
    (none) "filter (owns usr h) db = []"
      "runUpdate usr i (Some f) db = Some (Inl NotFoundError, db)"
  | (changed) xs t ys t' where "db = xs @ t # ys" "filter (owns usr h) xs = []"
      "owns usr h t" "f t = Cast t'"
      "runUpdate usr i (Some f) db = Some (Inr t', xs @ t' # ys)"
  | (failed) xs t ys where "db = xs @ t # ys" "filter (owns usr h) xs = []"
      "owns usr h t" "f t = CastError"
      "runUpdate usr i (Some f) db = Some (Inl InternalError, db)"
  | (outside) xs t ys where "db = xs @ t # ys" "filter (owns usr h) xs = []"
      "owns usr h t" "f t = Unmodelled" "runUpdate usr i (Some f) db = None"
proof (cases "filter (owns usr h) db = []")
  case True
  then show ?thesis using none runUpdate_nomatch_owns [OF assms] by simp
next
  case False
  then obtain xs t ys where db: "db = xs @ t # ys" and xs: "filter (owns usr h) xs = []"
    and t: "owns usr h t"
    using filter_nonempty_split by blast
  note run = runUpdate_match [OF assms xs t, of f ys]
  show ?thesis
  proof (cases "f t")
    case (Cast t')
    then show ?thesis using changed [of xs t ys t'] db xs t run by simp
  next
    case CastError
    then show ?thesis using failed [of xs t ys] db xs t run by simp
  next
    case Unmodelled
    then show ?thesis using outside [of xs t ys] db xs t run by simp
  qed
qed

lemma runUpdate_NotFound_iff:
  assumes "castObjectId i = Cast h"
  shows "(map_option fst (runUpdate usr i (Some f) db) = Some (Inl NotFoundError)) =
         (filter (matches usr i) db = [])"
  unfolding matches_owns [OF assms]
  by (rule runUpdate_cases [OF assms, of usr db f]) auto

text \<open>
  Without a match the answer is a failure that does not depend on the collection, which
  stays as it was.
\<close>

lemma runUpdate_nomatch:
  assumes "filter (matches usr i) db = []" "castObjectId i \<noteq> Unmodelled"
  shows "runUpdate usr i upd db =
    Some (Inl (if castObjectId i = CastError \<or> upd = None then InternalError
               else NotFoundError), db)"
proof (cases "castObjectId i")
  case (Cast h)
  with assms have "filter (owns usr h) db = []" by (simp add: matches_owns)
  then show ?thesis
    using Cast by (cases upd) (simp_all add: runUpdate_def findOneAndUpdate_nomatch)
next
  case CastError
  then show ?thesis by (simp add: runUpdate_def)
next
  case Unmodelled
  with assms show ?thesis by simp
qed

lemma deleteTask_nomatch:
  assumes "filter (matches usr i) db = []"
  shows "deleteTask usr i db =
    Some (Inl (if deleteChains i \<noteq> [] then ValidationError (deleteChains i)
               else if castObjectId i = CastError then InternalError
               else NotFoundError), db)"
proof (cases "deleteChains i = []")
  case False
  then show ?thesis by (simp add: deleteTask_def)
next
  case True
  then have u: "castObjectId i \<noteq> Unmodelled"
    by (simp add: deleteChains_nil isMongoId_cast)
  show ?thesis
  proof (cases "castObjectId i")
    case (Cast h)
    with assms have "filter (owns usr h) db = []" by (simp add: matches_owns)
    then show ?thesis
      using Cast True by (simp add: deleteTask_def findOneAndDelete_nomatch)
  next
    case CastError
    then show ?thesis using True by (simp add: deleteTask_def)
  next
    case Unmodelled
    with u show ?thesis by simp
  qed
qed

lemma updateProgress_alt:
  "updateProgress mongo now usr i b db =
     (if progressChains i b \<noteq> [] then Some (Inl (ValidationError (progressChains i b)), db)
      else runUpdate usr i (updateOf mongo now (progressDoc b)) db)"
  by (simp add: updateProgress_def progressDoc_def)

lemma updatePartial_nomatch:
  assumes "filter (matches usr i) db = []"
  shows "updatePartial mongo now usr i b db =
    Some (Inl (if updateChains i b \<noteq> [] then ValidationError (updateChains i b)
               else if castObjectId i = CastError \<or> updateOf mongo now b = None
               then InternalError else NotFoundError), db)"
proof (cases "updateChains i b = []")
  case False
  then show ?thesis by (simp add: updatePartial_def)
next
  case True
  then have "castObjectId i \<noteq> Unmodelled"
    using updateChains_id isMongoId_cast by blast
  then show ?thesis
    using True assms by (simp add: updatePartial_def runUpdate_nomatch)
qed

lemma updateProgress_nomatch:
  assumes "filter (matches usr i) db = []"
  shows "updateProgress mongo now usr i b db =
    Some (Inl (if progressChains i b \<noteq> [] then ValidationError (progressChains i b)
               else if castObjectId i = CastError \<or> updateOf mongo now (progressDoc b) = None
               then InternalError else NotFoundError), db)"
proof (cases "progressChains i b = []")
  case False
  then show ?thesis by (simp add: updateProgress_alt)
next
  case True
  then have "castObjectId i \<noteq> Unmodelled"
    by (simp add: progressChains_nil isMongoId_cast)
  then show ?thesis
    using True assms by (simp add: updateProgress_alt runUpdate_nomatch)
qed

lemma deleteTask_twice:
  assumes "distinct (map taskId db)" "deleteTask usr i db = Some (Inr (), d)"
  shows "deleteTask usr i d = Some (Inl NotFoundError, d)"
proof -
  from assms(2) obtain h where h: "castObjectId i = Cast h"
    by (cases "castObjectId i") (auto simp: deleteTask_def split: if_splits)
  have "filter (owns usr h) db \<noteq> []"
    using assms(2) findOneAndDelete_nomatch [of "owns usr h" db]
    by (auto simp: deleteTask_valid [OF h])
  then obtain xs t ys where db: "db = xs @ t # ys" and xs: "filter (owns usr h) xs = []"
    and t: "owns usr h t"
    using filter_nonempty_split by blast
  then have d: "d = xs @ ys"
    using assms(2) by (simp add: deleteTask_valid [OF h] findOneAndDelete_match)
  have "taskId t \<notin> set (map taskId ys)"
    using assms(1) db by auto
  have "\<not> owns usr h x" if "x \<in> set ys" for x
  proof
    assume "owns usr h x"
    with t have "taskId x = taskId t" by (simp add: owns_def)
    with that \<open>taskId t \<notin> set (map taskId ys)\<close> show False
      by (metis image_eqI set_map)
  qed
  then have "filter (owns usr h) ys = []"
    by (simp add: filter_empty_conv)
  with xs d have "filter (owns usr h) d = []" by simp
  then show ?thesis
    by (simp add: deleteTask_valid [OF h] findOneAndDelete_nomatch)
qed

text \<open>
  The update document \<^verbatim>\<open>{ progress }\<close> of a request that passed validation is one that
  \<open>castUpdate\<close> computes: it sets the progress, or is refused when the value is an array.
\<close>

lemma castUpdate_progress_only:
  "castUpdate [(''progress'', v)] =
     (case castNumber v of Cast n \<Rightarrow> Cast (setProgress n) | CastError \<Rightarrow> CastError
      | Unmodelled \<Rightarrow> Unmodelled)"
  by (simp add: castUpdate_def topKeyOk_def plainKey_def setOperand_def field_def castPath_def
      pathValue_def setProgress_def split: cast.splits)

lemma applyPatch_setProgress:
  "applyPatch now (setProgress n) t = t\<lparr>progress := n, updateTime := now\<rparr>"
  by (simp add: applyPatch_def setProgress_def)

lemma updateOf_progress:
  "updateOf mongo now [(''progress'', v)] =
     (case castNumber v of
        Cast n \<Rightarrow> Some (\<lambda>t. Cast (t\<lparr>progress := n, updateTime := now\<rparr>))
      | CastError \<Rightarrow> None
      | Unmodelled \<Rightarrow> map_option keepId (mongo now [(''progress'', v)]))"
  by (simp add: updateOf_def castUpdate_progress_only applyPatch_setProgress split: cast.splits)

lemma progressDoc_valid:
  assumes "progressChains i b = []"
  shows "\<exists>v. field b ''progress'' = Some v \<and> progressDoc b = [(''progress'', v)] \<and>
    (castNumber v = CastError \<or> (\<exists>n. castNumber v = Cast n \<and> 0 \<le> n \<and> n \<le> 100))"
proof -
  from assms have chk: "check (IsInt 0 (Some 100)) (field b ''progress'')"
    by (simp add: progressChains_nil)
  then obtain v where v: "field b ''progress'' = Some v"
    by (cases "field b ''progress''") auto
  then show ?thesis
    using isInt_cast [of 0 100 v] chk by (simp add: progressDoc_def orDefault_def)
qed

text \<open>
  C3, as the code has it. A request that passes validation, with an id of 24 hexadecimal
  digits and an update document that is not refused, is answered \<open>NotFoundError\<close> exactly
  when no record matches both the id and the caller: for \<open>deleteTask\<close>, \<open>updateProgress\<close>
  and \<open>updatePartial\<close>. For every request whatsoever, two collections without a matching
  record (one where the id is nobody's, one where it is another owner's) get the same
  failure and are left as they were. Deleting a task a second time is answered
  \<open>NotFoundError\<close>.
\<close>

theorem not_found_uniform:
  "(castObjectId i = Cast h \<longrightarrow>
      (map_option fst (deleteTask usr i db) = Some (Inl NotFoundError)) =
      (filter (matches usr i) db = [])) \<and>
   (castObjectId i = Cast h \<and> progressChains i b = [] \<and>
    updateOf mongo now (progressDoc b) = Some f \<longrightarrow>
      (map_option fst (updateProgress mongo now usr i b db) = Some (Inl NotFoundError)) =
      (filter (matches usr i) db = [])) \<and>
   (castObjectId i = Cast h \<and> updateChains i b = [] \<and> updateOf mongo now b = Some g \<longrightarrow>
      (map_option fst (updatePartial mongo now usr i b db) = Some (Inl NotFoundError)) =
      (filter (matches usr i) db = [])) \<and>
   (filter (matches usr i) db = [] \<and> filter (matches usr i) dbo = [] \<longrightarrow>
      (\<exists>e. deleteTask usr i db = Some (Inl e, db) \<and>
           deleteTask usr i dbo = Some (Inl e, dbo)) \<and>
      (\<exists>e. updateProgress mongo now usr i b db = Some (Inl e, db) \<and>
           updateProgress mongo now usr i b dbo = Some (Inl e, dbo)) \<and>
      (\<exists>e. updatePartial mongo now usr i b db = Some (Inl e, db) \<and>
           updatePartial mongo now usr i b dbo = Some (Inl e, dbo))) \<and>
   (distinct (map taskId db) \<and> deleteTask usr i db = Some (Inr (), d) \<longrightarrow>
      deleteTask usr i d = Some (Inl NotFoundError, d))"
proof (intro conjI impI)
  assume "castObjectId i = Cast h"
  then show "(map_option fst (deleteTask usr i db) = Some (Inl NotFoundError)) =
      (filter (matches usr i) db = [])"
    by (rule deleteTask_NotFound_iff)
next
  assume "castObjectId i = Cast h \<and> progressChains i b = [] \<and>
    updateOf mongo now (progressDoc b) = Some f"
  then show "(map_option fst (updateProgress mongo now usr i b db) = Some (Inl NotFoundError)) =
      (filter (matches usr i) db = [])"
    using runUpdate_NotFound_iff [of i h usr f db]
    by (simp add: updateProgress_alt)
next
  assume "castObjectId i = Cast h \<and> updateChains i b = [] \<and> updateOf mongo now b = Some g"
  then show "(map_option fst (updatePartial mongo now usr i b db) = Some (Inl NotFoundError)) =
      (filter (matches usr i) db = [])"
    using runUpdate_NotFound_iff [of i h usr g db]
    by (simp add: updatePartial_def)
next
  assume a: "filter (matches usr i) db = [] \<and> filter (matches usr i) dbo = []"
  show "\<exists>e. deleteTask usr i db = Some (Inl e, db) \<and> deleteTask usr i dbo = Some (Inl e, dbo)"
    using a deleteTask_nomatch [of usr i db] deleteTask_nomatch [of usr i dbo] by blast
  show "\<exists>e. updateProgress mongo now usr i b db = Some (Inl e, db) \<and>
      updateProgress mongo now usr i b dbo = Some (Inl e, dbo)"
    using a updateProgress_nomatch [of usr i db mongo now b]
      updateProgress_nomatch [of usr i dbo mongo now b] by blast
  show "\<exists>e. updatePartial mongo now usr i b db = Some (Inl e, db) \<and>
      updatePartial mongo now usr i b dbo = Some (Inl e, dbo)"
    using a updatePartial_nomatch [of usr i db mongo now b]
      updatePartial_nomatch [of usr i dbo mongo now b] by blast
next
  assume "distinct (map taskId db) \<and> deleteTask usr i db = Some (Inr (), d)"
  then show "deleteTask usr i d = Some (Inl NotFoundError, d)"
    using deleteTask_twice by blast
qed

lemma option_pair_eq:
  "map_option fst x = Some a \<Longrightarrow> (\<exists>e. x = Some (Inl e, s)) \<Longrightarrow> x = Some (a, s)"
  by (cases x) auto

theorem not_found_uniform_witness:
  "\<forall>mongo.
     deleteTask (IdString userB) id1 [weeklyReport] = Some (Inl NotFoundError, [weeklyReport]) \<and>
     deleteTask (IdString userB) id1 [] = Some (Inl NotFoundError, []) \<and>
     updateProgress mongo 2000 (IdString userB) id1 [(''progress'', JStr ''050'')] [weeklyReport] =
       Some (Inl NotFoundError, [weeklyReport]) \<and>
     updatePartial mongo 2000 (IdString userB) id1 [(''progress'', JNum 50)] [weeklyReport] =
       Some (Inl NotFoundError, [weeklyReport]) \<and>
     deleteTask (IdString userA) id1 [weeklyReport] = Some (Inr (), []) \<and>
     deleteTask (IdString userA) id1 [] = Some (Inl NotFoundError, [])"
proof
  fix mongo :: driver
  let ?f = "\<lambda>t. Cast (t\<lparr>progress := 50, updateTime := 2000\<rparr>) :: task cast"
  note prog = not_found_uniform [where i = id1 and h = id1 and usr = "IdString userB"
      and db = "[weeklyReport]" and b = "[(''progress'', JStr ''050'')]" and f = ?f
      and mongo = mongo and now = 2000 and g = ?f and dbo = "[]" and d = "[]"]
  note part = not_found_uniform [where i = id1 and h = id1 and usr = "IdString userB"
      and db = "[weeklyReport]" and b = "[(''progress'', JNum 50)]" and f = ?f
      and mongo = mongo and now = 2000 and g = ?f and dbo = "[]" and d = "[]"]
  note own = not_found_uniform [where i = id1 and h = id1 and usr = "IdString userA"
      and db = "[weeklyReport]" and b = "[(''progress'', JNum 50)]" and f = ?f
      and mongo = mongo and now = 2000 and g = ?f and dbo = "[]" and d = "[]"]
  have id: "castObjectId id1 = Cast id1"
    by code_simp
  have valid: "progressChains id1 [(''progress'', JStr ''050'')] = [] \<and>
      updateChains id1 [(''progress'', JNum 50)] = []"
    by code_simp
  have doc: "updateOf mongo 2000 (progressDoc [(''progress'', JStr ''050'')]) = Some ?f \<and>
      updateOf mongo 2000 [(''progress'', JNum 50)] = Some ?f"
    by (simp add: progressDoc_def orDefault_def field_def updateOf_progress unsignedLiteral_def
        isDigit_def digitsVal_def digitVal_def)
  have none: "filter (matches (IdString userB) id1) [weeklyReport] = [] \<and>
      filter (matches (IdString userB) id1) [] = []"
    by code_simp
  have first: "distinct (map taskId [weeklyReport]) \<and>
      deleteTask (IdString userA) id1 [weeklyReport] = Some (Inr (), [])"
    by code_simp
  have 1: "deleteTask (IdString userB) id1 [weeklyReport] = Some (Inl NotFoundError, [weeklyReport])"
    by (rule option_pair_eq) (use part id none in blast)+
  have 2: "deleteTask (IdString userB) id1 [] = Some (Inl NotFoundError, [])"
    using part none 1 by (metis Pair_inject option.inject)
  have 3: "updateProgress mongo 2000 (IdString userB) id1 [(''progress'', JStr ''050'')]
      [weeklyReport] = Some (Inl NotFoundError, [weeklyReport])"
    by (rule option_pair_eq) (use prog id valid doc none in blast)+
  have 4: "updatePartial mongo 2000 (IdString userB) id1 [(''progress'', JNum 50)] [weeklyReport] =
      Some (Inl NotFoundError, [weeklyReport])"
    by (rule option_pair_eq) (use part id valid doc none in blast)+
  have 5: "deleteTask (IdString userA) id1 [] = Some (Inl NotFoundError, [])"
    using own first by blast
  from 1 2 3 4 5 first
  show "deleteTask (IdString userB) id1 [weeklyReport] = Some (Inl NotFoundError, [weeklyReport]) \<and>
     deleteTask (IdString userB) id1 [] = Some (Inl NotFoundError, []) \<and>
     updateProgress mongo 2000 (IdString userB) id1 [(''progress'', JStr ''050'')] [weeklyReport] =
       Some (Inl NotFoundError, [weeklyReport]) \<and>
     updatePartial mongo 2000 (IdString userB) id1 [(''progress'', JNum 50)] [weeklyReport] =
       Some (Inl NotFoundError, [weeklyReport]) \<and>
     deleteTask (IdString userA) id1 [weeklyReport] = Some (Inr (), []) \<and>
     deleteTask (IdString userA) id1 [] = Some (Inl NotFoundError, [])"
    by blast
qed

text \<open>
  C3, as the claim has it, is false of a request that fails validation: no record matches
  the id \<^verbatim>\<open>abc\<close>, or an unknown id sent with a progress of 200, and the answer is
  \<open>ValidationError\<close>. It is false as well of a request that passes validation and that
  Mongoose refuses to cast: no record matches an id of 24 characters that starts with
  \<^verbatim>\<open>0x\<close>, or an unknown id sent with the progress \<^verbatim>\<open>[50]\<close>, and the answer is
  \<open>InternalError\<close>.
\<close>

theorem not_found_counterexample:
  "filter (matches (IdString userA) ''abc'') [] = [] \<and>
   deleteTask (IdString userA) ''abc'' [] =
     Some (Inl (ValidationError [(''id'', Id_invalid)]), []) \<and>
   filter (matches (IdString userA) id2) [weeklyReport] = [] \<and>
   (\<forall>mongo. updateProgress mongo 2000 (IdString userA) id2 [(''progress'', JNum 200)]
      [weeklyReport] =
     Some (Inl (ValidationError [(''progress'', Progress_must_be_0_100)]), [weeklyReport])) \<and>
   filter (matches (IdString userA) ''0x0123456789abcdef012345'') [weeklyReport] = [] \<and>
   deleteChains ''0x0123456789abcdef012345'' = [] \<and>
   deleteTask (IdString userA) ''0x0123456789abcdef012345'' [weeklyReport] =
     Some (Inl InternalError, [weeklyReport]) \<and>
   progressChains id2 [(''progress'', JArr [JNum 50])] = [] \<and>
   (\<forall>mongo. updateProgress mongo 2000 (IdString userA) id2 [(''progress'', JArr [JNum 50])]
      [weeklyReport] = Some (Inl InternalError, [weeklyReport]))"
proof (intro conjI allI)
  show "filter (matches (IdString userA) ''abc'') [] = []"
    by code_simp
  show "deleteTask (IdString userA) ''abc'' [] =
      Some (Inl (ValidationError [(''id'', Id_invalid)]), [])"
    by code_simp
  show "filter (matches (IdString userA) id2) [weeklyReport] = []"
    by code_simp
  show "updateProgress mongo 2000 (IdString userA) id2 [(''progress'', JNum 200)]
      [weeklyReport] =
      Some (Inl (ValidationError [(''progress'', Progress_must_be_0_100)]), [weeklyReport])"
    for mongo
    by code_simp
  show "filter (matches (IdString userA) ''0x0123456789abcdef012345'') [weeklyReport] = []"
    by code_simp
  show "deleteChains ''0x0123456789abcdef012345'' = []"
    by code_simp
  show "deleteTask (IdString userA) ''0x0123456789abcdef012345'' [weeklyReport] =
      Some (Inl InternalError, [weeklyReport])"
    by code_simp
  show "progressChains id2 [(''progress'', JArr [JNum 50])] = []"
    by code_simp
  show "updateProgress mongo 2000 (IdString userA) id2 [(''progress'', JArr [JNum 50])]
      [weeklyReport] = Some (Inl InternalError, [weeklyReport])"
    for mongo
    by code_simp
qed

section \<open>Properties of the progress route\<close>

lemma frame_setProgress [simp]: "frame (t\<lparr>progress := n, updateTime := now\<rparr>) = frame t"
  by (simp add: frame_def)

lemma runUpdate_setProgress:
  assumes "castObjectId i \<noteq> Unmodelled"
  shows "\<exists>r db'. runUpdate usr i (Some (\<lambda>t. Cast (t\<lparr>progress := n, updateTime := now\<rparr>))) db =
      Some (r, db') \<and> map frame db' = map frame db"
proof (cases "castObjectId i")
  case (Cast h)
  show ?thesis
    by (rule runUpdate_cases [OF Cast, of usr db
          "\<lambda>t. Cast (t\<lparr>progress := n, updateTime := now\<rparr>)"]) auto
next
  case CastError
  then show ?thesis by (simp add: runUpdate_def)
next
  case Unmodelled
  with assms show ?thesis by simp
qed

lemma updateProgress_total_frame:
  "\<exists>r db'. updateProgress mongo now usr i b db = Some (r, db') \<and> map frame db' = map frame db"
proof (cases "progressChains i b = []")
  case False
  then show ?thesis by (simp add: updateProgress_alt)
next
  case True
  then have id: "castObjectId i \<noteq> Unmodelled"
    by (simp add: progressChains_nil isMongoId_cast)
  from progressDoc_valid [OF True] obtain v where doc: "progressDoc b = [(''progress'', v)]"
    and v: "castNumber v = CastError \<or> (\<exists>n. castNumber v = Cast n \<and> 0 \<le> n \<and> n \<le> 100)"
    by blast
  from v show ?thesis
  proof
    assume "castNumber v = CastError"
    then have "updateOf mongo now (progressDoc b) = None"
      by (simp add: doc updateOf_progress)
    then show ?thesis
      using True id by (cases "castObjectId i") (simp_all add: updateProgress_alt runUpdate_def)
  next
    assume "\<exists>n. castNumber v = Cast n \<and> 0 \<le> n \<and> n \<le> 100"
    then obtain n where "castNumber v = Cast n" by blast
    then have "updateOf mongo now (progressDoc b) =
        Some (\<lambda>t. Cast (t\<lparr>progress := n, updateTime := now\<rparr>))"
      by (simp add: doc updateOf_progress)
    then show ?thesis
      using True runUpdate_setProgress [OF id, where usr = usr and n = n and now = now and db = db]
      by (simp add: updateProgress_alt)
  qed
qed

lemma castNumber_Cast_check:
  assumes "castNumber v = Cast n" "lo \<le> n" "n \<le> hi"
  shows "check (IsInt lo (Some hi)) (Some v)"
proof (cases v)
  case (JNum q)
  with assms show ?thesis
    by (auto simp: inRange_def split: option.splits if_splits)
next
  case (JStr s)
  with assms show ?thesis
    by (auto simp: inRange_def split: option.splits if_splits)
qed (use assms in auto)

lemma distinct_map_update:
  assumes "distinct (map taskId (xs @ t # ys))"
  shows "map (\<lambda>x. if taskId x = taskId t then g x else x) (xs @ t # ys) = xs @ g t # ys"
proof -
  have "taskId x \<noteq> taskId t" if "x \<in> set xs \<union> set ys" for x
    using assms that by (auto simp: image_iff)
  then have "map (\<lambda>x. if taskId x = taskId t then g x else x) xs = xs"
    and "map (\<lambda>x. if taskId x = taskId t then g x else x) ys = ys"
    by (simp_all add: map_idI)
  then show ?thesis by simp
qed

lemma distinct_first_match:
  assumes "distinct (map taskId db)" "t \<in> set db" "owns usr h t"
  shows "\<exists>xs ys. db = xs @ t # ys \<and> filter (owns usr h) xs = []"
proof -
  from assms(2) obtain xs ys where db: "db = xs @ t # ys"
    by (auto simp: in_set_conv_decomp)
  have "\<not> owns usr h x" if "x \<in> set xs" for x
  proof
    assume "owns usr h x"
    with assms(3) have "taskId x = taskId t" by (simp add: owns_def)
    with that assms(1) db show False by (auto simp: image_iff)
  qed
  then have "filter (owns usr h) xs = []" by (simp add: filter_empty_conv)
  with db show ?thesis by blast
qed

text \<open>
  C9. Every call of \<open>updateProgress\<close> returns, and whatever it is sent, every stored task
  keeps its id, owner, date, title, category, priority and creation time. Sent the id of
  a task of the caller's and a progress that is a number from 0 to 100, as a JSON number
  or as the digits of one, it sets that task's progress and \<^verbatim>\<open>updateTime\<close> and nothing else
  in the collection.
\<close>

theorem updateProgress_frame:
  "(\<exists>r db'. updateProgress mongo now usr i b db = Some (r, db') \<and>
      map frame db' = map frame db) \<and>
   (distinct (map taskId db) \<and> t \<in> set db \<and> matches usr i t \<and>
    field b ''progress'' = Some v \<and> castNumber v = Cast n \<and> 0 \<le> n \<and> n \<le> 100
      \<longrightarrow> updateProgress mongo now usr i b db =
            Some (Inr (t\<lparr>progress := n, updateTime := now\<rparr>),
                  map (\<lambda>x. if taskId x = taskId t then x\<lparr>progress := n, updateTime := now\<rparr>
                            else x) db))"
proof (intro conjI impI)
  show "\<exists>r db'. updateProgress mongo now usr i b db = Some (r, db') \<and>
      map frame db' = map frame db"
    by (rule updateProgress_total_frame)
next
  assume a: "distinct (map taskId db) \<and> t \<in> set db \<and> matches usr i t \<and>
    field b ''progress'' = Some v \<and> castNumber v = Cast n \<and> 0 \<le> n \<and> n \<le> 100"
  then have h: "castObjectId i = Cast (taskId t)" and own: "owns usr (taskId t) t"
    by (simp_all add: matches_def owns_def)
  have chains: "progressChains i b = []"
    using a castObjectId_isMongoId [OF h] castNumber_Cast_check [of v n 0 100]
    by (simp add: progressChains_nil)
  have doc: "updateOf mongo now (progressDoc b) =
      Some (\<lambda>t. Cast (t\<lparr>progress := n, updateTime := now\<rparr>))"
    using a by (simp add: progressDoc_def orDefault_def updateOf_progress)
  from a own obtain xs ys where db: "db = xs @ t # ys"
    and xs: "filter (owns usr (taskId t)) xs = []"
    using distinct_first_match by blast
  have "runUpdate usr i (Some (\<lambda>t. Cast (t\<lparr>progress := n, updateTime := now\<rparr>))) db =
      Some (Inr (t\<lparr>progress := n, updateTime := now\<rparr>),
            xs @ t\<lparr>progress := n, updateTime := now\<rparr> # ys)"
    unfolding db by (simp add: runUpdate_match [OF h xs own])
  moreover have "map (\<lambda>x. if taskId x = taskId t then x\<lparr>progress := n, updateTime := now\<rparr>
      else x) db = xs @ t\<lparr>progress := n, updateTime := now\<rparr> # ys"
    using a distinct_map_update [of xs t ys] by (simp add: db)
  ultimately show "updateProgress mongo now usr i b db =
      Some (Inr (t\<lparr>progress := n, updateTime := now\<rparr>),
            map (\<lambda>x. if taskId x = taskId t then x\<lparr>progress := n, updateTime := now\<rparr>
                      else x) db)"
    using chains doc by (simp add: updateProgress_alt)
qed

lemma leading_zero_progress:
  "distinct (map taskId [weeklyReport]) \<and> weeklyReport \<in> set [weeklyReport] \<and>
   matches (IdString userA) id1 weeklyReport \<and>
   field [(''progress'', JStr ''050''), (''title'', JStr ''x'')] ''progress'' = Some (JStr ''050'') \<and>
   castNumber (JStr ''050'') = Cast 50"
  by code_simp

theorem updateProgress_frame_witness:
  "\<forall>mongo.
     updateProgress mongo 2000 (IdString userA) id1
       [(''progress'', JStr ''050''), (''title'', JStr ''x'')] [weeklyReport] =
       Some (Inr halfDone, [halfDone]) \<and>
     map frame [halfDone] = map frame [weeklyReport] \<and>
     title halfDone = title weeklyReport \<and> date halfDone = date weeklyReport \<and>
     category halfDone = category weeklyReport \<and> priority halfDone = priority weeklyReport"
proof
  fix mongo :: driver
  note inst = updateProgress_frame [of mongo 2000 "IdString userA" id1
      "[(''progress'', JStr ''050''), (''title'', JStr ''x'')]"
      "[weeklyReport]" weeklyReport "JStr ''050''" 50]
  have run: "updateProgress mongo 2000 (IdString userA) id1
      [(''progress'', JStr ''050''), (''title'', JStr ''x'')] [weeklyReport] =
      Some (Inr halfDone, [halfDone])"
    using inst leading_zero_progress by (simp add: halfDone_def)
  with inst have "map frame [halfDone] = map frame [weeklyReport]" by auto
  with run
  show "updateProgress mongo 2000 (IdString userA) id1
       [(''progress'', JStr ''050''), (''title'', JStr ''x'')] [weeklyReport] =
       Some (Inr halfDone, [halfDone]) \<and>
     map frame [halfDone] = map frame [weeklyReport] \<and>
     title halfDone = title weeklyReport \<and> date halfDone = date weeklyReport \<and>
     category halfDone = category weeklyReport \<and> priority halfDone = priority weeklyReport"
    by (simp add: frame_def)
qed

section \<open>What the partial update lets through\<close>

text \<open>
  C2. The update document of \<^verbatim>\<open>PUT /api/tasks/:id\<close> is the whole request body. A body
  with the keys \<^verbatim>\<open>userId\<close> and \<^verbatim>\<open>createTime\<close> passes the validators, which look at five
  other keys, and Mongoose sets both paths: the task of user A becomes user B's, with
  another creation time, and user B's listing shows it.
\<close>

theorem updatePartial_reassigns_owner:
  "updatePartial mongo 2000 (IdString userA) id1
     [(''userId'', JStr userB), (''createTime'', JNum 0)] [weeklyReport] =
     Some (Inr reassigned, [reassigned]) \<and>
   userId reassigned = userB \<and> userId weeklyReport = userA \<and>
   createTime reassigned = 0 \<and> createTime weeklyReport = 1000 \<and>
   listTasks (IdString userB) None [reassigned] = Inr [reassigned]"
  by code_simp

text \<open>
  C5. A body whose only key is \<^verbatim>\<open>$set\<close> passes the validators too, and Mongoose, which
  runs no schema validator on an update, stores a progress of 500 and a priority of 7 in
  a task that \<open>create\<close> made.
\<close>

theorem updatePartial_stores_out_of_range:
  "create 1000 1001 id1 (IdString userA) plainBody [] = Some (Inr weeklyReport, [weeklyReport]) \<and>
   updatePartial mongo 2000 (IdString userA) id1
     [(''$set'', JObj [(''progress'', JNum 500), (''priority'', JNum 7)])] [weeklyReport] =
     Some (Inr outOfBounds, [outOfBounds]) \<and>
   progress outOfBounds = 500 \<and> priority outOfBounds = 7"
  by code_simp


section \<open>The last day of a month\<close>

lemma int_div_succ:
  fixes a c :: int
  assumes "0 < c"
  shows "(a + 1) div c = (if (a + 1) mod c = 0 then a div c + 1 else a div c)"
proof -
  define q r where "q = a div c" and "r = a mod c"
  have a: "a = c * q + r" and r: "0 \<le> r" "r < c"
    using assms by (simp_all add: q_def r_def)
  show ?thesis
  proof (cases "r + 1 = c")
    case True
    then have "a + 1 = c * (q + 1)" using a by (simp add: algebra_simps)
    then have "(a + 1) div c = q + 1" "(a + 1) mod c = 0" using assms by simp_all
    then show ?thesis by (simp add: q_def)
  next
    case False
    with r have lt: "r + 1 < c" by simp
    have eq: "a + 1 = (r + 1) + c * q" using a by simp
    have "(a + 1) div c = q"
      unfolding eq using lt r assms by (simp add: div_pos_pos_trivial)
    moreover have "(a + 1) mod c = r + 1"
      unfolding eq using lt r assms by (simp add: mod_pos_pos_trivial)
    ultimately show ?thesis using r by (simp add: q_def)
  qed
qed

lemma mod4_shift: "((y::int) - 1968) mod 4 = 0 \<longleftrightarrow> y mod 4 = 0"
  using mod_mult_self1 [of y "- 492" 4] by simp

lemma mod100_shift: "((y::int) - 1900) mod 100 = 0 \<longleftrightarrow> y mod 100 = 0"
  using mod_mult_self1 [of y "- 19" 100] by simp

lemma mod400_shift: "((y::int) - 1600) mod 400 = 0 \<longleftrightarrow> y mod 400 = 0"
  using mod_mult_self1 [of y "- 4" 400] by simp

lemma mod400_100: "(y::int) mod 400 = 0 \<Longrightarrow> y mod 100 = 0"
proof -
  assume "y mod 400 = 0"
  then have "400 dvd y" by (simp add: dvd_eq_mod_eq_0)
  moreover have "(100::int) dvd 400" by simp
  ultimately have "100 dvd y" by (rule dvd_trans [rotated])
  then show ?thesis by (simp add: dvd_eq_mod_eq_0)
qed

lemma mod100_4: "(y::int) mod 100 = 0 \<Longrightarrow> y mod 4 = 0"
proof -
  assume "y mod 100 = 0"
  then have "100 dvd y" by (simp add: dvd_eq_mod_eq_0)
  moreover have "(4::int) dvd 100" by simp
  ultimately have "4 dvd y" by (rule dvd_trans [rotated])
  then show ?thesis by (simp add: dvd_eq_mod_eq_0)
qed

lemma DayFromYear_step: "DayFromYear (y + 1) = DayFromYear y + DaysInYear y"
proof -
  have 4: "(y + 1 - 1969) div 4 = (if y mod 4 = 0 then (y - 1969) div 4 + 1 else (y - 1969) div 4)"
    using int_div_succ [of 4 "y - 1969"] mod4_shift [of y] by (simp add: algebra_simps)
  have 100: "(y + 1 - 1901) div 100 =
      (if y mod 100 = 0 then (y - 1901) div 100 + 1 else (y - 1901) div 100)"
    using int_div_succ [of 100 "y - 1901"] mod100_shift [of y] by (simp add: algebra_simps)
  have 400: "(y + 1 - 1601) div 400 =
      (if y mod 400 = 0 then (y - 1601) div 400 + 1 else (y - 1601) div 400)"
    using int_div_succ [of 400 "y - 1601"] mod400_shift [of y] by (simp add: algebra_simps)
  show ?thesis
    unfolding DayFromYear_def DaysInYear_def isLeap_def 4 100 400
    using mod400_100 [of y] mod100_4 [of y] by auto
qed

lemma DayFromYear_1970: "DayFromYear 1970 = 0"
  by (simp add: DayFromYear_def)

lemma DaysInYear_cases: "DaysInYear y = 365 \<or> DaysInYear y = 366"
  by (simp add: DaysInYear_def)

lemma DayFromYear_bounds_nat:
  "365 * int n \<le> DayFromYear (1970 + int n) \<and> DayFromYear (1970 + int n) \<le> 366 * int n"
proof (induction n)
  case 0
  then show ?case by (simp add: DayFromYear_1970)
next
  case (Suc n)
  have "DayFromYear (1970 + int (Suc n)) = DayFromYear (1970 + int n) + DaysInYear (1970 + int n)"
    using DayFromYear_step [of "1970 + int n"] by (simp add: algebra_simps)
  with Suc DaysInYear_cases [of "1970 + int n"] show ?case by auto
qed

lemma DayFromYear_bounds:
  "0 \<le> k \<Longrightarrow> 365 * k \<le> DayFromYear (1970 + k) \<and> DayFromYear (1970 + k) \<le> 366 * k"
  using DayFromYear_bounds_nat [of "nat k"] by simp

lemma DayFromYear_mono_nat: "DayFromYear y \<le> DayFromYear (y + int n)"
proof (induction n)
  case 0
  then show ?case by simp
next
  case (Suc n)
  have "DayFromYear (y + int (Suc n)) = DayFromYear (y + int n) + DaysInYear (y + int n)"
    using DayFromYear_step [of "y + int n"] by (simp add: algebra_simps)
  with Suc DaysInYear_cases [of "y + int n"] show ?case by linarith
qed

lemma DayFromYear_mono: "y \<le> z \<Longrightarrow> DayFromYear y \<le> DayFromYear z"
  using DayFromYear_mono_nat [of y "nat (z - y)"] by simp

lemma yearSearch_correct:
  "y0 \<le> y \<Longrightarrow> y - y0 \<le> int n \<Longrightarrow> DayFromYear y \<le> d \<Longrightarrow> d < DayFromYear (y + 1)
     \<Longrightarrow> yearSearch n y0 d = y"
proof (induction n arbitrary: y0)
  case 0
  then show ?case by simp
next
  case (Suc n)
  show ?case
  proof (cases "DayFromYear (y0 + 1) \<le> d")
    case True
    have "y0 \<noteq> y" using True Suc.prems(4) by auto
    with Suc.prems have "y0 + 1 \<le> y" "y - (y0 + 1) \<le> int n" by auto
    with Suc.IH [of "y0 + 1"] Suc.prems True show ?thesis by simp
  next
    case False
    have "\<not> y0 + 1 \<le> y"
      using False Suc.prems(3) DayFromYear_mono [of "y0 + 1" y] by linarith
    with Suc.prems(1) have "y0 = y" by simp
    with False show ?thesis by simp
  qed
qed

lemma YearFromDay_correct:
  assumes "1970 \<le> y" "DayFromYear y \<le> d" "d < DayFromYear (y + 1)"
  shows "YearFromDay d = y"
proof -
  have e1: "1970 + (y - 1970) = y" and e2: "1970 + (y + 1 - 1970) = y + 1" by simp_all
  have "0 \<le> y - 1970" "0 \<le> y + 1 - 1970" using assms(1) by simp_all
  then have "365 * (y - 1970) \<le> DayFromYear y"
    and "DayFromYear (y + 1) \<le> 366 * (y + 1 - 1970)"
    using DayFromYear_bounds [of "y - 1970"] DayFromYear_bounds [of "y + 1 - 1970"]
    unfolding e1 e2 by blast+
  then have lo: "365 * (y - 1970) \<le> d" and hi: "d < 366 * (y + 1 - 1970)"
    using assms(2,3) by linarith+
  have "0 \<le> 365 * (y - 1970)" using assms(1) by simp
  with lo have d0: "0 \<le> d" by linarith
  have a: "1970 + d div 366 \<le> y"
  proof -
    define q r where "q = d div 366" and "r = d mod 366"
    have "d = 366 * q + r" "0 \<le> r" by (simp_all add: q_def r_def)
    with hi have "q < y - 1969" by simp
    then show ?thesis unfolding q_def by linarith
  qed
  have b: "y - 1970 \<le> d div 365"
  proof -
    define q r where "q = d div 365" and "r = d mod 365"
    have "d = 365 * q + r" "r < 365" by (simp_all add: q_def r_def)
    with lo have "y - 1970 < q + 1" by simp
    then show ?thesis unfolding q_def by linarith
  qed
  have c: "d div 366 \<le> d div 365" using d0 by (simp add: zdiv_mono2)
  have "y - (1970 + d div 366) \<le> int (nat (d div 365 - d div 366))"
    using b c by simp
  with a assms show ?thesis
    unfolding YearFromDay_def by (intro yearSearch_correct) auto
qed

lemma MakeDay_last:
  assumes "1 \<le> m" "m \<le> 12"
  shows "MakeDay y m 0 =
    (if m = 12 then DayFromYear (y + 1) - 1 else DayFromYear y + monthStart (leapDay y) m - 1)"
proof (cases "m = 12")
  case True
  then show ?thesis by (simp add: MakeDay_def monthStart_def)
next
  case False
  with assms have "m div 12 = 0" "m mod 12 = m" by simp_all
  with False show ?thesis by (simp add: MakeDay_def)
qed

lemma monthStart_range:
  assumes "1 \<le> m" "m \<le> 11"
  shows "31 \<le> monthStart (leapDay y) m \<and> monthStart (leapDay y) m \<le> 334 + leapDay y"
  using assms by (auto simp: monthStart_def leapDay_def)

lemma DaysInYear_leapDay: "DaysInYear y = 365 + leapDay y"
  by (simp add: DaysInYear_def leapDay_def)

lemma MakeDay_last_year:
  assumes "1970 \<le> y" "1 \<le> m" "m \<le> 12"
  shows "YearFromDay (MakeDay y m 0) = y"
proof (rule YearFromDay_correct [OF assms(1)])
  show "DayFromYear y \<le> MakeDay y m 0"
    using assms monthStart_range [of m y] DayFromYear_step [of y] DaysInYear_cases [of y]
    by (auto simp: MakeDay_last)
  show "MakeDay y m 0 < DayFromYear (y + 1)"
    using assms monthStart_range [of m y] DayFromYear_step [of y]
    by (auto simp: MakeDay_last DaysInYear_leapDay)
qed

lemma DateFromDay_last:
  assumes "1970 \<le> y" "1 \<le> m" "m \<le> 12"
  shows "DateFromDay (MakeDay y m 0) = daysInMonth y m"
proof -
  have yr: "YearFromDay (MakeDay y m 0) = y" using assms by (rule MakeDay_last_year)
  have w: "MakeDay y m 0 - DayFromYear y =
      (if m = 12 then 364 + leapDay y else monthStart (leapDay y) m - 1)"
    using assms DayFromYear_step [of y] by (simp add: MakeDay_last DaysInYear_leapDay)
  from assms have "m = 1 \<or> m = 2 \<or> m = 3 \<or> m = 4 \<or> m = 5 \<or> m = 6 \<or> m = 7 \<or> m = 8 \<or>
      m = 9 \<or> m = 10 \<or> m = 11 \<or> m = 12" by arith
  then show ?thesis
    unfolding DateFromDay_def yr Let_def w
    by (auto simp: monthStart_def leapDay_def daysInMonth_def)
qed

lemma DayFromYear_275760: "DayFromYear 275760 = 99999744"
  by (simp add: DayFromYear_def)

lemma MakeDay_in_range:
  assumes "1970 \<le> y" "1 \<le> m" "m \<le> 12" "y < 275760 \<or> (y = 275760 \<and> m \<le> 8)"
  shows "abs (MakeDay y m 0) \<le> 100000000"
proof -
  have lo: "0 \<le> MakeDay y m 0"
    using assms(1-3) MakeDay_last_year [of y m] DayFromYear_bounds [of "y - 1970"]
      monthStart_range [of m y] DayFromYear_step [of y] DaysInYear_cases [of y]
    by (auto simp: MakeDay_last)
  have hi: "MakeDay y m 0 \<le> 100000000"
  proof (cases "y < 275760")
    case True
    then have "DayFromYear (y + 1) \<le> DayFromYear 275760"
      by (intro DayFromYear_mono) simp
    moreover have "MakeDay y m 0 < DayFromYear (y + 1)"
      using assms(1-3) monthStart_range [of m y] DayFromYear_step [of y]
      by (auto simp: MakeDay_last DaysInYear_leapDay)
    ultimately show ?thesis by (simp add: DayFromYear_275760)
  next
    case False
    with assms(4) have y: "y = 275760" and m: "m \<le> 8" by auto
    from assms(2) m have "m = 1 \<or> m = 2 \<or> m = 3 \<or> m = 4 \<or> m = 5 \<or> m = 6 \<or> m = 7 \<or> m = 8"
      by arith
    then show ?thesis
      unfolding y by (auto simp: MakeDay_last DayFromYear_275760 monthStart_def leapDay_def)
  qed
  from lo hi show ?thesis by simp
qed

lemma getDate_last_day:
  assumes "1970 \<le> y" "1 \<le> m" "m \<le> 12" "y < 275760 \<or> (y = 275760 \<and> m \<le> 8)"
  shows "getDateOfNewDate y m 0 = Some (daysInMonth y m)"
  using MakeDay_in_range [OF assms] DateFromDay_last [OF assms(1-3)]
  by (simp add: getDateOfNewDate_def Let_def)

section \<open>Properties of the monthly window\<close>

lemma length_showNat_small: "n < 10 \<Longrightarrow> length (showNat n) = 1"
  by (simp add: showNat.simps)

lemma length_showNat_two: "10 \<le> n \<Longrightarrow> n < 100 \<Longrightarrow> length (showNat n) = 2"
  using showNat.simps [of n] length_showNat_small [of "n div 10"] by simp

lemma pad_twoDigits:
  assumes "0 \<le> n" "n < 100"
  shows "pad (Some n) = twoDigits n"
proof (cases "n < 10")
  case True
  with assms have "length (showInt n) = 1"
    by (simp add: showInt_def length_showNat_small)
  with True show ?thesis by (simp add: pad_def twoDigits_def)
next
  case False
  with assms have "length (showInt n) = 2"
    by (simp add: showInt_def length_showNat_two)
  with False show ?thesis by (simp add: pad_def twoDigits_def)
qed

lemma twoDigits_1: "twoDigits 1 = ''01''"
  by code_simp

lemma daysInMonth_range: "28 \<le> daysInMonth y m \<and> daysInMonth y m \<le> 31"
  by (simp add: daysInMonth_def)

lemma yearText_safe: "abs y < 2 ^ 53 \<Longrightarrow> yearText big y = showInt y"
  by (simp add: yearText_def)

lemma monthStartStr_iso:
  "1 \<le> m \<Longrightarrow> m \<le> 12 \<Longrightarrow> abs y < 2 ^ 53 \<Longrightarrow> monthStartStr big y m = isoDate y m 1"
  by (simp add: monthStartStr_def isoDate_def pad_twoDigits twoDigits_1 yearText_safe)

lemma monthEndStr_iso:
  assumes "1970 \<le> y" "1 \<le> m" "m \<le> 12" "y < 275760 \<or> (y = 275760 \<and> m \<le> 8)"
  shows "monthEndStr big y m = isoDate y m (daysInMonth y m)"
proof -
  have "abs y < 2 ^ 53" using assms by auto
  then show ?thesis
    using assms daysInMonth_range [of y m]
    by (simp add: monthEndStr_def isoDate_def pad_twoDigits getDate_last_day yearText_safe)
qed

lemma monthlyChains_nil:
  "monthlyChains (Some ys) (Some ms) = [] \<longleftrightarrow>
     inRange 1970 None (intLiteral ys) \<and> inRange 1 (Some 12) (intLiteral ms)"
  by (simp add: monthlyChains_def runChain_nil_required)

lemma monthlyChains_missing: "y = None \<or> m = None \<Longrightarrow> monthlyChains y m \<noteq> []"
  by (auto simp: monthlyChains_def runChain_def)

text \<open>
  Every request to \<open>monthly\<close> is answered: with \<open>ValidationError\<close>, or with the statistics
  of the window of a year from 1970 on and a month from 1 to 12.
\<close>

lemma monthly_valid:
  assumes "intLiteral ys = Some year" "intLiteral ms = Some month"
    "1970 \<le> year" "1 \<le> month" "month \<le> 12"
  shows "monthly big usr (Some ys) (Some ms) db =
    Some (Inr (monthlyOf (monthTasks big usr year month db)))"
  using assms by (simp add: monthly_def monthlyChains_nil inRange_def jsNumber_def)

lemma monthly_cases:
  obtains
    (invalid) "monthlyChains y m \<noteq> []"
      "monthly big usr y m db = Some (Inl (ValidationError (monthlyChains y m)))"
  | (valid) ys ms year month where "y = Some ys" "m = Some ms"
      "intLiteral ys = Some year" "intLiteral ms = Some month"
      "1970 \<le> year" "1 \<le> month" "month \<le> 12"
      "monthly big usr y m db = Some (Inr (monthlyOf (monthTasks big usr year month db)))"
proof (cases "monthlyChains y m = []")
  case False
  then show ?thesis using invalid by (simp add: monthly_def)
next
  case True
  then obtain ys ms where y: "y = Some ys" and m: "m = Some ms"
    using monthlyChains_missing [of y m] by (cases y; cases m) auto
  from True obtain year month where lit: "intLiteral ys = Some year" "intLiteral ms = Some month"
    and rng: "1970 \<le> year" "1 \<le> month" "month \<le> 12"
    unfolding y m monthlyChains_nil by (auto simp: inRange_def split: option.splits)
  show ?thesis
    using valid [OF y m lit rng] monthly_valid [OF lit rng] y m by simp
qed

lemma monthly_is_monthlyOf:
  assumes "monthly big usr y m db = Some (Inr st)"
  shows "\<exists>year month. st = monthlyOf (monthTasks big usr year month db)"
  by (rule monthly_cases [of y m big usr db]) (use assms in auto)


text \<open>
  C7, as the code has it. For a year from 1970 to August 275760, where JavaScript's dates
  end, and a month from 1 to 12, both written in digits, leading zeroes or not,
  \<open>monthly\<close> aggregates exactly the caller's tasks whose date is, as a string, from
  \<^verbatim>\<open>YYYY-MM-01\<close> to \<^verbatim>\<open>YYYY-MM-DD\<close> with \<^verbatim>\<open>DD\<close> the last day of the month in the calendar,
  29 for the February of a leap year.
\<close>

theorem monthly_window:
  "1970 \<le> year \<and> (year < 275760 \<or> (year = 275760 \<and> month \<le> 8)) \<and>
   1 \<le> month \<and> month \<le> 12 \<and> intLiteral ys = Some year \<and> intLiteral ms = Some month
     \<longrightarrow> monthly big usr (Some ys) (Some ms) db =
           Some (Inr (monthlyOf (filter (\<lambda>t. userId t = ownerOf usr \<and>
               isoDate year month 1 \<le> date t \<and>
               date t \<le> isoDate year month (daysInMonth year month)) db)))"
proof
  assume a: "1970 \<le> year \<and> (year < 275760 \<or> (year = 275760 \<and> month \<le> 8)) \<and>
   1 \<le> month \<and> month \<le> 12 \<and> intLiteral ys = Some year \<and> intLiteral ms = Some month"
  then have safe: "abs year < 2 ^ 53" by auto
  have s: "monthStartStr big year month = isoDate year month 1"
    using a safe by (simp add: monthStartStr_iso)
  have e: "monthEndStr big year month = isoDate year month (daysInMonth year month)"
    using a by (intro monthEndStr_iso) auto
  show "monthly big usr (Some ys) (Some ms) db =
      Some (Inr (monthlyOf (filter (\<lambda>t. userId t = ownerOf usr \<and>
          isoDate year month 1 \<le> date t \<and>
          date t \<le> isoDate year month (daysInMonth year month)) db)))"
    using a by (simp add: monthly_valid monthTasks_def inWindow_def s e)
qed

lemma leap_request: "intLiteral ''2024'' = Some 2024 \<and> intLiteral ''02'' = Some 2"
  by code_simp

lemma leap_window:
  "isoDate 2024 2 1 = ''2024-02-01'' \<and> isoDate 2024 2 (daysInMonth 2024 2) = ''2024-02-29''"
  by code_simp

lemma leap_filter:
  "filter (\<lambda>t. userId t = ownerOf (IdString userA) \<and> ''2024-02-01'' \<le> date t \<and>
      date t \<le> ''2024-02-29'') [leapDayTask, marchTask, othersTask] = [leapDayTask]"
  by code_simp

theorem monthly_window_witness:
  "\<forall>big.
     monthly big (IdString userA) (Some ''2024'') (Some ''02'')
       [leapDayTask, marchTask, othersTask] = Some (Inr (monthlyOf [leapDayTask])) \<and>
     isoDate 2024 2 1 = ''2024-02-01'' \<and>
     isoDate 2024 2 (daysInMonth 2024 2) = ''2024-02-29'' \<and>
     date leapDayTask = ''2024-02-29'' \<and> date marchTask = ''2024-03-01''"
proof
  fix big :: "int \<Rightarrow> string"
  note inst = monthly_window [of 2024 2 "''2024''" "''02''" big "IdString userA"
      "[leapDayTask, marchTask, othersTask]"]
  have "monthly big (IdString userA) (Some ''2024'') (Some ''02'')
      [leapDayTask, marchTask, othersTask] = Some (Inr (monthlyOf [leapDayTask]))"
    using inst leap_request leap_filter by (simp add: leap_window)
  then show "monthly big (IdString userA) (Some ''2024'') (Some ''02'')
       [leapDayTask, marchTask, othersTask] = Some (Inr (monthlyOf [leapDayTask])) \<and>
     isoDate 2024 2 1 = ''2024-02-01'' \<and>
     isoDate 2024 2 (daysInMonth 2024 2) = ''2024-02-29'' \<and>
     date leapDayTask = ''2024-02-29'' \<and> date marchTask = ''2024-03-01''"
    using leap_window by (simp add: leapDayTask_def marchTask_def weeklyReport_def)
qed

text \<open>
  C7, as the claim has it, is false of the year 300000: the date is invalid, \<^verbatim>\<open>getDate\<close> is
  \<^verbatim>\<open>NaN\<close>, the window ends at \<^verbatim>\<open>300000-02-NaN\<close>, and a task dated \<^verbatim>\<open>300000-02-30\<close>, after the
  month's last day, is counted.
\<close>

lemma far_getDate: "getDateOfNewDate 300000 2 0 = None"
  by (simp add: getDateOfNewDate_def MakeDay_def DayFromYear_def monthStart_def leapDay_def isLeap_def)

lemma far_show: "showInt 300000 = ''300000'' \<and> pad (Some 2) = ''02'' \<and> pad None = ''NaN''"
  by code_simp

lemma far_end: "monthEndStr big 300000 2 = ''300000-02-NaN''"
  by (simp add: monthEndStr_def far_getDate far_show yearText_def)

lemma far_start: "monthStartStr big 300000 2 = ''300000-02-01''"
  by (simp add: monthStartStr_def far_show yearText_def)

lemma far_request: "intLiteral ''300000'' = Some 300000 \<and> intLiteral ''2'' = Some 2"
  by code_simp

lemma far_tasks: "monthTasks big (IdString userA) 300000 2 [farFuture] = [farFuture]"
  by (simp add: monthTasks_def far_start far_end inWindow_def farFuture_def weeklyReport_def)

lemma far_stats:
  "monthlyOf [farFuture] =
     \<lparr> total' = 1, averageProgress = Some 0, daily = [(''300000-02-30'', 1, Some 0)] \<rparr>"
  by code_simp

lemma far_iso: "isoDate 300000 2 (daysInMonth 300000 2) = ''300000-02-29''"
  by code_simp

lemma far_out: "\<not> date farFuture \<le> ''300000-02-29''"
  by code_simp

lemma far_monthly:
  "monthly big (IdString userA) (Some ''300000'') (Some ''2'') [farFuture] =
     Some (Inr \<lparr> total' = 1, averageProgress = Some 0,
                 daily = [(''300000-02-30'', 1, Some 0)] \<rparr>)"
  using far_request by (simp add: monthly_valid far_tasks far_stats)

theorem monthly_window_counterexample:
  "(\<forall>big. monthEndStr big 300000 2 = ''300000-02-NaN'' \<and>
      monthly big (IdString userA) (Some ''300000'') (Some ''2'') [farFuture] =
        Some (Inr \<lparr> total' = 1, averageProgress = Some 0,
                    daily = [(''300000-02-30'', 1, Some 0)] \<rparr>)) \<and>
   isoDate 300000 2 (daysInMonth 300000 2) = ''300000-02-29'' \<and>
   \<not> date farFuture \<le> isoDate 300000 2 (daysInMonth 300000 2)"
  unfolding far_iso using far_end far_monthly far_out by blast

section \<open>Properties of the doubles\<close>

lemma bitLen_nonneg: "0 \<le> bitLen n"
proof (induction n rule: bitLen.induct)
  case (1 n)
  then show ?case by (simp add: bitLen.simps [of n])
qed

lemma bitLen_pos: "0 < n \<Longrightarrow> 1 \<le> bitLen n"
  using bitLen_nonneg [of "n div 2"] by (simp add: bitLen.simps [of n])

lemma bitLen_bounds:
  "0 < n \<Longrightarrow> 2 ^ nat (bitLen n - 1) \<le> n \<and> n < 2 ^ nat (bitLen n)"
proof (induction n rule: bitLen.induct)
  case (1 n)
  show ?case
  proof (cases "n div 2 = 0")
    case True
    with 1(2) have "n = 1" by presburger
    then show ?thesis by (simp add: bitLen.simps [of 1] bitLen.simps [of 0])
  next
    case False
    with 1(2) have m: "0 < n div 2" by presburger
    define m where "m = n div 2"
    define b where "b = bitLen m"
    have ih: "2 ^ nat (b - 1) \<le> m \<and> m < 2 ^ nat b"
      using 1(1) 1(2) m unfolding m_def b_def by simp
    have b1: "1 \<le> b" using bitLen_pos m unfolding b_def m_def by simp
    have bn: "bitLen n = b + 1"
      using 1(2) by (simp add: bitLen.simps [of n] b_def m_def)
    have n: "2 * m \<le> n" "n < 2 * m + 2" unfolding m_def by presburger+
    have p1: "(2::int) ^ nat b = 2 * 2 ^ nat (b - 1)"
      using b1 by (metis Suc_nat_eq_nat_zadd1 add.commute diff_add_cancel diff_ge_0_iff_ge power_Suc)
    have p2: "(2::int) ^ nat (b + 1) = 2 * 2 ^ nat b"
      using b1 by (simp add: nat_add_distrib)
    show ?thesis
      using ih n unfolding bn by (simp add: p1 p2)
  qed
qed

lemma two_powi_pos [simp]: "0 < (2::rat) powi e"
  by (simp add: power_int_def)

lemma two_powi_nat: "0 \<le> e \<Longrightarrow> (2::rat) powi e = of_int (2 ^ nat e)"
  by (simp add: power_int_def)

lemma two_powi_Suc: "(2::rat) powi (e + 1) = 2 * 2 powi e"
  by (simp add: power_int_add)

lemma two_powi_mono: "a \<le> b \<Longrightarrow> (2::rat) powi a \<le> 2 powi b"
  by (rule power_int_increasing) simp_all


lemma expo_spec:
  assumes "0 < x"
  shows "2 powi expo x \<le> x \<and> x < 2 powi (expo x + 1)"
proof (cases "1 \<le> x")
  case True
  define n where "n = floor x"
  have n: "0 < n" using True unfolding n_def by simp
  have b: "2 ^ nat (bitLen n - 1) \<le> n" "n < 2 ^ nat (bitLen n)"
    using bitLen_bounds [OF n] by simp_all
  have b1: "1 \<le> bitLen n" using bitLen_pos [OF n] .
  have e: "expo x = bitLen n - 1" using True by (simp add: expo_def n_def)
  have "(2::rat) powi (bitLen n - 1) = of_int (2 ^ nat (bitLen n - 1))"
    using b1 by (simp add: two_powi_nat)
  also have "\<dots> \<le> of_int n" using b(1) by (simp only: of_int_le_iff)
  also have "\<dots> \<le> x" unfolding n_def by simp
  finally have lo: "2 powi expo x \<le> x" unfolding e .
  have "n + 1 \<le> 2 ^ nat (bitLen n)" using b(2) by simp
  then have "(of_int (n + 1) :: rat) \<le> of_int (2 ^ nat (bitLen n))"
    by (simp only: of_int_le_iff)
  moreover have "x < of_int (n + 1)" unfolding n_def by linarith
  moreover have "(2::rat) powi (bitLen n) = of_int (2 ^ nat (bitLen n))"
    using b1 by (simp add: two_powi_nat)
  ultimately have "x < 2 powi (expo x + 1)" unfolding e by simp
  with lo show ?thesis by simp
next
  case False
  then have x1: "x < 1" by simp
  define c where "c = ceiling (1 / x)"
  have inv: "1 < 1 / x" using assms x1 by simp
  then have c2: "2 \<le> c" unfolding c_def by linarith
  define a where "a = bitLen (c - 1)"
  have pos: "0 < c - 1" using c2 by simp
  have b: "2 ^ nat (a - 1) \<le> c - 1" "c - 1 < 2 ^ nat a"
    using bitLen_bounds [OF pos] unfolding a_def by simp_all
  have a1: "1 \<le> a" using bitLen_pos [OF pos] unfolding a_def .
  have e: "expo x = - a" using False by (simp add: expo_def c_def a_def)
  have cx: "of_int (c - 1) < 1 / x" "1 / x \<le> of_int c"
    unfolding c_def by linarith+
  have "c \<le> 2 ^ nat a" using b(2) by simp
  then have "(of_int c :: rat) \<le> of_int (2 ^ nat a)" by (simp only: of_int_le_iff)
  also have "\<dots> = 2 powi a" using a1 by (simp add: two_powi_nat)
  finally have "1 / x \<le> 2 powi a" using cx(2) by linarith
  then have "1 \<le> 2 powi a * x" using assms by (simp add: field_simps)
  then have lo: "2 powi (- a) \<le> x"
    by (simp add: power_int_minus field_simps)
  have "(2::rat) powi (a - 1) = of_int (2 ^ nat (a - 1))" using a1 by (simp add: two_powi_nat)
  also have "\<dots> \<le> of_int (c - 1)" using b(1) by (simp only: of_int_le_iff)
  finally have "2 powi (a - 1) < 1 / x" using cx(1) by linarith
  then have "2 powi (a - 1) * x < 1" using assms by (simp add: field_simps)
  then have "x < 1 / 2 powi (a - 1)"
    by (simp add: pos_less_divide_eq mult.commute)
  moreover have "(2::rat) powi (- a + 1) = 1 / 2 powi (a - 1)"
    using power_int_minus_divide [of "2::rat" "a - 1"] by simp
  ultimately have hi: "x < 2 powi (- a + 1)" by simp
  from lo hi show ?thesis unfolding e by simp
qed

lemma roundEven_ge: "of_int a \<le> y \<Longrightarrow> a \<le> roundEven y"
proof -
  assume "of_int a \<le> y"
  then have "a \<le> floor y" by (simp add: le_floor_iff)
  then show ?thesis by (simp add: roundEven_def Let_def)
qed


lemma roundEven_of_int [simp]: "roundEven (of_int a) = a"
  by (simp add: roundEven_def)

lemma roundEven_minus: "roundEven (- y) = - roundEven y"
proof (cases "of_int (floor y) = y")
  case True
  then obtain a where "y = of_int a" by metis
  then show ?thesis using roundEven_of_int [of "- a"] by simp
next
  case False
  then have "ceiling y = floor y + 1" by (simp add: ceiling_altdef)
  then have f: "floor (- y) = - floor y - 1" by (simp add: floor_minus)
  have d: "- y - of_int (- floor y - 1) = 1 - (y - of_int (floor y))" by simp
  show ?thesis
    unfolding roundEven_def Let_def f d by auto
qed

lemma fl_0 [simp]: "fl 0 = 0"
  by (simp add: fl_def)

lemma fl_minus: "fl (- x) = - fl x"
  by (simp add: fl_def Let_def roundEven_minus)

lemma fl_pos:
  assumes "0 < x"
  shows "fl x = of_int (roundEven (x / 2 powi (expo x - 52))) * 2 powi (expo x - 52)"
    and "2 ^ 52 \<le> x / 2 powi (expo x - 52)"
proof -
  show "fl x = of_int (roundEven (x / 2 powi (expo x - 52))) * 2 powi (expo x - 52)"
    using assms by (simp add: fl_def Let_def)
  have "(2::rat) powi expo x = 2 powi 52 * 2 powi (expo x - 52)"
    using power_int_add [of "2::rat" 52 "expo x - 52"] by simp
  then have "2 ^ 52 * 2 powi (expo x - 52) \<le> x"
    using expo_spec [OF assms] by simp
  then show "2 ^ 52 \<le> x / 2 powi (expo x - 52)"
    by (simp add: pos_le_divide_eq)
qed

lemma scaled_int:
  assumes "e \<le> j"
  shows "of_int m * 2 powi j / 2 powi e = (of_int (m * 2 ^ nat (j - e)) :: rat)"
proof -
  have "(2::rat) powi j = 2 powi (j - e) * 2 powi e"
    using power_int_add [of "2::rat" "j - e" e] by simp
  moreover have "(2::rat) powi (j - e) = of_int (2 ^ nat (j - e))"
    using assms by (simp add: two_powi_nat)
  ultimately show ?thesis by simp
qed

lemma scaled_int_mult:
  assumes "e \<le> j"
  shows "of_int (m * 2 ^ nat (j - e)) * 2 powi e = (of_int m * 2 powi j :: rat)"
proof -
  have "(2::rat) powi j = 2 powi (j - e) * 2 powi e"
    using power_int_add [of "2::rat" "j - e" e] by simp
  moreover have "(2::rat) powi (j - e) = of_int (2 ^ nat (j - e))"
    using assms by (simp add: two_powi_nat)
  ultimately show ?thesis by simp
qed

lemma two_powi_not_neg [simp]: "\<not> (2::rat) powi e < 0"
  using two_powi_pos [of e] by (simp only: not_less less_imp_le)


lemma fl_lower_pos:
  assumes "0 < x" "0 < m" "m < 2 ^ 53" "of_int m * 2 powi j \<le> x"
  shows "of_int m * 2 powi j \<le> fl x"
proof -
  define e where "e = expo x - 52"
  define u where "u = (2::rat) powi e"
  have u: "0 < u" by (simp add: u_def)
  have fx: "fl x = of_int (roundEven (x / u)) * u"
    using fl_pos(1) [OF assms(1)] by (simp add: u_def e_def)
  show ?thesis
  proof (cases "e \<le> j")
    case True
    have "of_int m * 2 powi j / u \<le> x / u"
      using assms(4) u by (simp add: divide_right_mono)
    then have "of_int (m * 2 ^ nat (j - e)) \<le> x / u"
      unfolding u_def scaled_int [OF True] .
    then have "m * 2 ^ nat (j - e) \<le> roundEven (x / u)" by (rule roundEven_ge)
    then have h: "(of_int (m * 2 ^ nat (j - e)) :: rat) \<le> of_int (roundEven (x / u))"
      by (simp only: of_int_le_iff)
    have a: "of_int (m * 2 ^ nat (j - e)) * u \<le> of_int (roundEven (x / u)) * u"
      using mult_right_mono [OF h less_imp_le [OF u]] .
    have b: "of_int (m * 2 ^ nat (j - e)) * u = of_int m * 2 powi j"
      unfolding u_def by (rule scaled_int_mult [OF True])
    show ?thesis unfolding fx using a unfolding b .
  next
    case False
    then have je: "53 + j \<le> expo x" by (simp add: e_def)
    have "(of_int m :: rat) < of_int (2 ^ 53)" using assms(3) by (simp only: of_int_less_iff)
    then have "of_int m * 2 powi j < (2::rat) ^ 53 * 2 powi j"
      by (simp add: mult_strict_right_mono)
    also have "\<dots> = 2 powi (53 + j)"
      using power_int_add [of "2::rat" 53 j] by simp
    also have "\<dots> \<le> 2 powi expo x" using je by (rule two_powi_mono)
    also have "\<dots> = 2 ^ 52 * u"
      using power_int_add [of "2::rat" 52 "expo x - 52"] by (simp add: u_def e_def)
    finally have lt: "of_int m * 2 powi j < 2 ^ 52 * u" .
    have "(of_int (2 ^ 52) :: rat) \<le> x / u"
      using fl_pos(2) [OF assms(1)] by (simp add: u_def e_def)
    then have "2 ^ 52 \<le> roundEven (x / u)" by (rule roundEven_ge)
    then have h: "(of_int (2 ^ 52) :: rat) \<le> of_int (roundEven (x / u))"
      by (simp only: of_int_le_iff)
    have "of_int (2 ^ 52) * u \<le> of_int (roundEven (x / u)) * u"
      using mult_right_mono [OF h less_imp_le [OF u]] .
    then have "2 ^ 52 * u \<le> fl x" unfolding fx by simp
    with lt show ?thesis by linarith
  qed
qed

lemma fl_sign_pos:
  assumes "0 < x"
  shows "0 < fl x"
proof -
  have "of_int 1 * 2 powi expo x \<le> fl x"
    by (rule fl_lower_pos) (use assms expo_spec [OF assms] in simp_all)
  then have "2 powi expo x \<le> fl x" by simp
  moreover have "0 < (2::rat) powi expo x" by (rule two_powi_pos)
  ultimately show ?thesis by (rule less_le_trans [rotated])
qed

lemma fl_sign_neg: "x < 0 \<Longrightarrow> fl x < 0"
  using fl_sign_pos [of "- x"] by (simp add: fl_minus)









section \<open>Properties of the averages\<close>




lemma orZero_id [simp]: "orZero n = n"
  by (simp add: orZero_def)

text \<open>The sums are exact while the magnitudes add up to less than \<open>2^53\<close>.\<close>

lemma weight_snoc [simp]: "weight (ts @ [t]) = weight ts + abs (progress t)"
  by (simp add: weight_def)



lemma sumProgress_snoc: "sumProgress (ts @ [t]) = fl (sumProgress ts + of_int (progress t))"
  by (simp add: sumProgress_def)




text \<open>The \<^verbatim>\<open>daily\<close> object as a map from dates.\<close>

lemma map_of_bumpDaily:
  "map_of (bumpDaily t acc) =
     (map_of acc)(date t \<mapsto>
        (case map_of acc (date t) of
           None \<Rightarrow> (1, fl (of_int (progress t)))
         | Some (c, s) \<Rightarrow> (c + 1, fl (s + of_int (progress t)))))"
  by (induction acc) (auto simp: fun_eq_iff)

lemma keys_bumpDaily:
  "map fst (bumpDaily t acc) =
     (if date t \<in> set (map fst acc) then map fst acc else map fst acc @ [date t])"
  by (induction acc) (auto, (force simp: image_iff)+)

lemma dailyOf_snoc: "dailyOf (ts @ [t]) = bumpDaily t (dailyOf ts)"
  by (simp add: dailyOf_def)

lemma groupOn_snoc:
  "groupOn d (ts @ [t]) = (if date t = d then groupOn d ts @ [t] else groupOn d ts)"
  by (simp add: groupOn_def)

lemma groupOn_nil_iff: "groupOn d ts = [] \<longleftrightarrow> d \<notin> date ` set ts"
  by (auto simp: groupOn_def filter_empty_conv)

lemma groupOn_absent: "d \<notin> date ` set ts \<Longrightarrow> groupOn d ts = []"
  by (simp add: groupOn_nil_iff)

lemma dailyOf_keys: "distinct (map fst (dailyOf ts)) \<and> set (map fst (dailyOf ts)) = date ` set ts"
proof (induction ts rule: rev_induct)
  case Nil
  then show ?case by (simp add: dailyOf_def)
next
  case (snoc t ts)
  then show ?case by (auto simp: dailyOf_snoc keys_bumpDaily)
qed

lemma sumProgress_Nil [simp]: "sumProgress [] = 0"
  by (simp add: sumProgress_def)

lemma sumProgress_single: "sumProgress [t] = fl (of_int (progress t))"
  by (simp add: sumProgress_def)

lemma dailyOf_map_of:
  "map_of (dailyOf ts) d =
     (if d \<in> date ` set ts
      then Some (length (groupOn d ts), sumProgress (groupOn d ts)) else None)"
proof (induction ts rule: rev_induct)
  case Nil
  then show ?case by (simp add: dailyOf_def)
next
  case (snoc t ts)
  show ?case
  proof (cases "d = date t")
    case True
    then show ?thesis
      using snoc
      by (auto simp: dailyOf_snoc map_of_bumpDaily groupOn_snoc groupOn_absent
          sumProgress_snoc sumProgress_single)
  next
    case False
    then show ?thesis
      using snoc by (auto simp: dailyOf_snoc map_of_bumpDaily groupOn_snoc)
  qed
qed

lemma dailyOf_entry:
  "(d, c, s) \<in> set (dailyOf ts) \<longleftrightarrow>
     d \<in> date ` set ts \<and> c = length (groupOn d ts) \<and> s = sumProgress (groupOn d ts)"
proof -
  have "(d, c, s) \<in> set (dailyOf ts) \<longleftrightarrow> map_of (dailyOf ts) d = Some (c, s)"
    using dailyOf_keys [of ts] by (simp add: map_of_eq_Some_iff)
  then show ?thesis by (auto simp: dailyOf_map_of)
qed

lemma daily_monthlyOf:
  "(d, c, a) \<in> set (daily (monthlyOf ts)) \<longleftrightarrow>
     groupOn d ts \<noteq> [] \<and> c = length (groupOn d ts) \<and>
     a = roundDiv (sumProgress (groupOn d ts)) (length (groupOn d ts))"
proof -
  have "(d, c, a) \<in> set (daily (monthlyOf ts)) \<longleftrightarrow>
      (\<exists>s. (d, c, s) \<in> set (dailyOf ts) \<and> a = roundDiv s c)"
    by (force simp: monthlyOf_def)
  also have "\<dots> \<longleftrightarrow> groupOn d ts \<noteq> [] \<and> c = length (groupOn d ts) \<and>
      a = roundDiv (sumProgress (groupOn d ts)) (length (groupOn d ts))"
    by (auto simp: dailyOf_entry groupOn_nil_iff)
  finally show ?thesis .
qed

lemma dailyCompletion_entry:
  "(d, a, c) \<in> set (dailyCompletion usr db) \<longleftrightarrow>
     groupOn d (filter (aggMatch usr) db) \<noteq> [] \<and>
     c = length (groupOn d (filter (aggMatch usr) db)) \<and>
     a = roundDiv (fl (of_int (sum_list (map progress (groupOn d (filter (aggMatch usr) db))))))
           (length (groupOn d (filter (aggMatch usr) db)))"
  using groupOn_nil_iff [of d "filter (aggMatch usr) db"]
  by (auto simp: dailyCompletion_def Let_def)












text \<open>
  C8. For a year from 1970 on and a month from 1 to 12, written in digits, with no task
  of the caller's in the window, \<open>monthly\<close> returns a total of 0, an average of 0 and an
  empty \<^verbatim>\<open>daily\<close> list. No average that \<open>monthly\<close> or \<open>dailyCompletion\<close> reports is the
  outcome of a division by zero: every group has a task.
\<close>

theorem empty_month_no_division_error:
  "(intLiteral ys = Some year \<and> intLiteral ms = Some month \<and> 1970 \<le> year \<and>
    1 \<le> month \<and> month \<le> 12 \<and> monthTasks big usr year month db = [] \<longrightarrow>
      monthly big usr (Some ys) (Some ms) db =
        Some (Inr \<lparr> total' = 0, averageProgress = Some 0, daily = [] \<rparr>)) \<and>
   (monthly big usr y m db = Some (Inr st) \<longrightarrow>
      averageProgress st \<noteq> None \<and> (\<forall>(d, c, a) \<in> set (daily st). 1 \<le> c \<and> a \<noteq> None)) \<and>
   (\<forall>(d, a, c) \<in> set (dailyCompletion usr db). 1 \<le> c \<and> a \<noteq> None)"
proof (intro conjI impI)
  assume a: "intLiteral ys = Some year \<and> intLiteral ms = Some month \<and> 1970 \<le> year \<and>
    1 \<le> month \<and> month \<le> 12 \<and> monthTasks big usr year month db = []"
  then show "monthly big usr (Some ys) (Some ms) db =
      Some (Inr \<lparr> total' = 0, averageProgress = Some 0, daily = [] \<rparr>)"
    by (simp add: monthly_valid monthlyOf_def dailyOf_def)
next
  assume "monthly big usr y m db = Some (Inr st)"
  then obtain year month where st: "st = monthlyOf (monthTasks big usr year month db)"
    using monthly_is_monthlyOf by blast
  show "averageProgress st \<noteq> None"
    by (simp add: st monthlyOf_def roundDiv_def)
  show "\<forall>(d, c, a) \<in> set (daily st). 1 \<le> c \<and> a \<noteq> None"
    by (auto simp: st daily_monthlyOf roundDiv_def Suc_le_eq)
next
  show "\<forall>(d, a, c) \<in> set (dailyCompletion usr db). 1 \<le> c \<and> a \<noteq> None"
    by (auto simp: dailyCompletion_entry roundDiv_def Suc_le_eq)
qed

lemma feb_request:
  "intLiteral ''2024'' = Some 2024 \<and> intLiteral ''02'' = Some 2 \<and>
   monthTasks big (IdString userA) 2024 2 [marchTask, othersTask] = []"
  by code_simp

lemma feb_daily:
  "dailyCompletion (IdObject userA) [marchTask, othersTask] = [(''2024-03-01'', Some 0, 1)]"
  by code_simp

lemma beyond_request:
  "intLiteral ''9007199254740993'' = Some 9007199254740993 \<and> intLiteral ''12'' = Some 12 \<and>
   monthTasks big (IdString userA) 9007199254740993 12 [] = []"
  by code_simp

theorem empty_month_no_division_error_witness:
  "\<forall>big.
     monthly big (IdString userA) (Some ''2024'') (Some ''02'') [marchTask, othersTask] =
       Some (Inr \<lparr> total' = 0, averageProgress = Some 0, daily = [] \<rparr>) \<and>
     monthly big (IdString userA) (Some ''9007199254740993'') (Some ''12'') [] =
       Some (Inr \<lparr> total' = 0, averageProgress = Some 0, daily = [] \<rparr>) \<and>
     dailyCompletion (IdObject userA) [marchTask, othersTask] = [(''2024-03-01'', Some 0, 1)]"
proof
  fix big :: "int \<Rightarrow> string"
  note inst = empty_month_no_division_error [where ys = "''2024''" and year = 2024
      and ms = "''02''" and month = 2 and big = big and usr = "IdString userA"
      and db = "[marchTask, othersTask]" and y = "Some ''2024''" and m = "Some ''02''"
      and st = "\<lparr> total' = 0, averageProgress = Some 0, daily = [] \<rparr>"]
  note far = empty_month_no_division_error [where ys = "''9007199254740993''"
      and year = 9007199254740993 and ms = "''12''" and month = 12 and big = big
      and usr = "IdString userA" and db = "[]" and y = "Some ''2024''" and m = "Some ''02''"
      and st = "\<lparr> total' = 0, averageProgress = Some 0, daily = [] \<rparr>"]
  have 1: "monthly big (IdString userA) (Some ''2024'') (Some ''02'') [marchTask, othersTask] =
      Some (Inr \<lparr> total' = 0, averageProgress = Some 0, daily = [] \<rparr>)"
    using inst feb_request [of big] by simp
  have 2: "monthly big (IdString userA) (Some ''9007199254740993'') (Some ''12'') [] =
      Some (Inr \<lparr> total' = 0, averageProgress = Some 0, daily = [] \<rparr>)"
    using far beyond_request [of big] by simp
  from 1 2 feb_daily
  show "monthly big (IdString userA) (Some ''2024'') (Some ''02'') [marchTask, othersTask] =
       Some (Inr \<lparr> total' = 0, averageProgress = Some 0, daily = [] \<rparr>) \<and>
     monthly big (IdString userA) (Some ''9007199254740993'') (Some ''12'') [] =
       Some (Inr \<lparr> total' = 0, averageProgress = Some 0, daily = [] \<rparr>) \<and>
     dailyCompletion (IdObject userA) [marchTask, othersTask] = [(''2024-03-01'', Some 0, 1)]"
    by simp
qed

section \<open>Isolation of owners\<close>

lemma filter_own:
  "filter (\<lambda>t. userId t = ownerOf usr \<and> Q t) (ownTasks usr db) =
   filter (\<lambda>t. userId t = ownerOf usr \<and> Q t) db"
  by (induction db) (auto simp: ownTasks_def)

lemma aggMatch_owner: "aggMatch usr t \<Longrightarrow> userId t = ownerOf usr"
  by (cases usr) auto

lemma filter_aggMatch_own: "filter (aggMatch usr) (ownTasks usr db) = filter (aggMatch usr) db"
  by (induction db) (auto simp: ownTasks_def dest: aggMatch_owner)

lemma listTasks_own: "listTasks usr q db = listTasks usr q (ownTasks usr db)"
  by (simp add: listTasks_def filter_own)

lemma listRange_own: "listRange usr s e db = listRange usr s e (ownTasks usr db)"
  by (simp add: listRange_def filter_own split: option.splits json.splits)

lemma monthly_own: "monthly big usr y m db = monthly big usr y m (ownTasks usr db)"
  by (simp add: monthly_def monthTasks_def filter_own
      split: option.splits prod.splits)

lemma dailyCompletion_own: "dailyCompletion usr db = dailyCompletion usr (ownTasks usr db)"
  by (simp add: dailyCompletion_def filter_aggMatch_own)

lemma listTasks_members:
  "listTasks usr q db = Inr ts \<Longrightarrow> t \<in> set ts \<Longrightarrow> t \<in> set db \<and> userId t = ownerOf usr"
  by (auto simp: listTasks_def sortTasks_def split: if_splits)

lemma listRange_members:
  "listRange usr s e db = Inr ts \<Longrightarrow> t \<in> set ts \<Longrightarrow> t \<in> set db \<and> userId t = ownerOf usr"
  by (auto simp: listRange_def sortTasks_def split: if_splits option.splits json.splits)

lemma dailyCompletion_dates:
  "(d, a, c) \<in> set (dailyCompletion usr db) \<Longrightarrow> d \<in> date ` set (ownTasks usr db)"
  using aggMatch_owner by (fastforce simp: dailyCompletion_entry groupOn_nil_iff ownTasks_def)

lemma foreign_id_nomatch:
  assumes "distinct (map taskId db)" "t \<in> set db" "userId t \<noteq> ownerOf usr"
    "castObjectId i = Cast (taskId t)"
  shows "filter (matches usr i) db = []"
proof -
  have "\<not> matches usr i x" if "x \<in> set db" for x
  proof
    assume m: "matches usr i x"
    with assms(4) have "taskId x = taskId t" by (simp add: matches_def)
    with assms(1,2) that have "x = t" by (simp add: distinct_map inj_on_def)
    with m assms(3) show False by (simp add: matches_def)
  qed
  then show ?thesis by (simp add: filter_empty_conv)
qed

lemma runUpdate_keeps_foreign:
  assumes "t \<in> set db" "userId t \<noteq> ownerOf usr" "runUpdate usr i upd db = Some (r, db')"
  shows "t \<in> set db'"
proof (cases "castObjectId i")
  case (Cast h)
  show ?thesis
  proof (cases upd)
    case None
    with Cast assms show ?thesis by (simp add: runUpdate_def)
  next
    case (Some f)
    show ?thesis
      by (rule runUpdate_cases [OF Cast, of usr db f])
         (use assms in \<open>auto simp: owns_def Some\<close>)
  qed
next
  case CastError
  with assms show ?thesis by (simp add: runUpdate_def)
next
  case Unmodelled
  with assms show ?thesis by (simp add: runUpdate_def)
qed

lemma deleteTask_keeps_foreign:
  assumes "t \<in> set db" "userId t \<noteq> ownerOf usr" "deleteTask usr i db = Some (r, db')"
  shows "t \<in> set db'"
proof (cases "deleteChains i = []")
  case False
  with assms show ?thesis by (simp add: deleteTask_def)
next
  case True
  show ?thesis
  proof (cases "castObjectId i")
    case (Cast h)
    show ?thesis
      using findOneAndDelete_cases [of "owns usr h" db] assms
      by (auto simp: deleteTask_valid [OF Cast] owns_def)
  next
    case CastError
    with assms True show ?thesis by (simp add: deleteTask_def)
  next
    case Unmodelled
    with assms True show ?thesis by (simp add: deleteTask_def)
  qed
qed

lemma create_keeps:
  assumes "t \<in> set db" "create t0 t1 newId usr b db = Some (r, db')"
  shows "t \<in> set db'"
  using assms
  by (auto simp: create_def TaskCreate_def Let_def
      split: if_splits cast.splits option.splits prod.splits)

lemma mutations_keep_foreign:
  assumes "t \<in> set db" "userId t \<noteq> ownerOf usr"
  shows "create t0 t1 newId usr b db = Some (r, db') \<longrightarrow> t \<in> set db'"
    and "updatePartial mongo now usr i b db = Some (r, db') \<longrightarrow> t \<in> set db'"
    and "updateProgress mongo now usr i b db = Some (r, db') \<longrightarrow> t \<in> set db'"
    and "deleteTask usr i db = Some (u, db') \<longrightarrow> t \<in> set db'"
proof -
  show "create t0 t1 newId usr b db = Some (r, db') \<longrightarrow> t \<in> set db'"
    using assms(1) create_keeps by blast
  show "updatePartial mongo now usr i b db = Some (r, db') \<longrightarrow> t \<in> set db'"
    using assms runUpdate_keeps_foreign [of t db usr i "updateOf mongo now b" r db']
    by (auto simp: updatePartial_def split: if_splits)
  show "updateProgress mongo now usr i b db = Some (r, db') \<longrightarrow> t \<in> set db'"
    using assms runUpdate_keeps_foreign [of t db usr i "updateOf mongo now (progressDoc b)" r db']
    by (auto simp: updateProgress_alt split: if_splits)
  show "deleteTask usr i db = Some (u, db') \<longrightarrow> t \<in> set db'"
    using assms deleteTask_keeps_foreign by blast
qed

text \<open>
  What isolation the routes keep. Every read is computed from the caller's own tasks:
  the listing by date, the listing of a range, the monthly statistics and the daily
  completion give the same answer on the whole collection as on the caller's tasks alone,
  and a task stored under another owner is in no listing. Given the exact id of another
  owner's task, \<open>deleteTask\<close> answers \<open>NotFoundError\<close> and the two updates answer with a
  failure; the collection stays as it was. Whatever a caller creates, updates or deletes,
  under whatever id, the tasks of the other owners stay in the collection as they are.
  The owner is the one the record holds when the query runs.
\<close>

theorem owner_isolation:
  "listTasks usr q db = listTasks usr q (ownTasks usr db) \<and>
   listRange usr s e db = listRange usr s e (ownTasks usr db) \<and>
   monthly big usr y m db = monthly big usr y m (ownTasks usr db) \<and>
   dailyCompletion usr db = dailyCompletion usr (ownTasks usr db) \<and>
   (t \<in> set db \<and> userId t \<noteq> ownerOf usr \<longrightarrow>
      t \<notin> set (ownTasks usr db) \<and>
      (\<forall>ts. listTasks usr q db = Inr ts \<longrightarrow> t \<notin> set ts) \<and>
      (\<forall>ts. listRange usr s e db = Inr ts \<longrightarrow> t \<notin> set ts)) \<and>
   (distinct (map taskId db) \<and> t \<in> set db \<and> userId t \<noteq> ownerOf usr \<and>
    castObjectId i = Cast (taskId t) \<longrightarrow>
      deleteTask usr i db = Some (Inl NotFoundError, db) \<and>
      (\<exists>f. updateProgress mongo now usr i b db = Some (Inl f, db)) \<and>
      (\<exists>f. updatePartial mongo now usr i b db = Some (Inl f, db))) \<and>
   (t \<in> set db \<and> userId t \<noteq> ownerOf usr \<longrightarrow>
      (create t0 t1 newId usr b db = Some (r, d) \<longrightarrow> t \<in> set d) \<and>
      (updatePartial mongo now usr j b db = Some (r, d) \<longrightarrow> t \<in> set d) \<and>
      (updateProgress mongo now usr j b db = Some (r, d) \<longrightarrow> t \<in> set d) \<and>
      (deleteTask usr j db = Some (u, d) \<longrightarrow> t \<in> set d))"
proof (intro conjI impI)
  show "listTasks usr q db = listTasks usr q (ownTasks usr db)" by (rule listTasks_own)
  show "listRange usr s e db = listRange usr s e (ownTasks usr db)" by (rule listRange_own)
  show "monthly big usr y m db = monthly big usr y m (ownTasks usr db)" by (rule monthly_own)
  show "dailyCompletion usr db = dailyCompletion usr (ownTasks usr db)"
    by (rule dailyCompletion_own)
next
  assume a: "t \<in> set db \<and> userId t \<noteq> ownerOf usr"
  then show "t \<notin> set (ownTasks usr db)" by (simp add: ownTasks_def)
  show "\<forall>ts. listTasks usr q db = Inr ts \<longrightarrow> t \<notin> set ts"
    using a listTasks_members [of usr q db _ t] by blast
  show "\<forall>ts. listRange usr s e db = Inr ts \<longrightarrow> t \<notin> set ts"
    using a listRange_members [of usr s e db _ t] by blast
next
  assume a: "distinct (map taskId db) \<and> t \<in> set db \<and> userId t \<noteq> ownerOf usr \<and>
    castObjectId i = Cast (taskId t)"
  then have none: "filter (matches usr i) db = []"
    using foreign_id_nomatch by blast
  from a have "deleteChains i = []"
    using castObjectId_isMongoId [of i "taskId t"] by (simp add: deleteChains_nil)
  with a show "deleteTask usr i db = Some (Inl NotFoundError, db)"
    by (simp add: deleteTask_nomatch [OF none])
  show "\<exists>f. updateProgress mongo now usr i b db = Some (Inl f, db)"
    using updateProgress_nomatch [OF none] by blast
  show "\<exists>f. updatePartial mongo now usr i b db = Some (Inl f, db)"
    using updatePartial_nomatch [OF none] by blast
next
  assume a: "t \<in> set db \<and> userId t \<noteq> ownerOf usr"
  then have k: "t \<in> set db" "userId t \<noteq> ownerOf usr" by simp_all
  show "t \<in> set d" if "create t0 t1 newId usr b db = Some (r, d)"
    using that mutations_keep_foreign(1) [OF k] by blast
  show "t \<in> set d" if "updatePartial mongo now usr j b db = Some (r, d)"
    using that mutations_keep_foreign(2) [OF k] by blast
  show "t \<in> set d" if "updateProgress mongo now usr j b db = Some (r, d)"
    using that mutations_keep_foreign(3) [OF k] by blast
  show "t \<in> set d" if "deleteTask usr j db = Some (u, d)"
    using that mutations_keep_foreign(4) [OF k] by blast
qed

lemma twoOwners_own: "ownTasks (IdObject userB) twoOwners = [othersTask]"
  by code_simp

lemma twoOwners_reads:
  "listTasks (IdObject userB) None [othersTask] = Inr [othersTask] \<and>
   listTasks (IdObject userB) (Some (JStr ''2024-05-01'')) [othersTask] = Inr [] \<and>
   listRange (IdObject userB) (Some (JStr ''2024-01-01'')) (Some (JStr ''2024-12-31''))
     [othersTask] = Inr [othersTask] \<and>
   monthly big (IdObject userB) (Some ''2024'') (Some ''5'') [othersTask] =
     Some (Inr \<lparr> total' = 0, averageProgress = Some 0, daily = [] \<rparr>) \<and>
   dailyCompletion (IdObject userB) [othersTask] = [(''2024-02-10'', Some 0, 1)]"
  by code_simp

lemma twoOwners_foreign:
  "distinct (map taskId twoOwners) \<and> weeklyReport \<in> set twoOwners \<and>
   userId weeklyReport \<noteq> ownerOf (IdObject userB) \<and>
   castObjectId id1 = Cast (taskId weeklyReport)"
  by code_simp

theorem owner_isolation_witness:
  "\<forall>big.
     listTasks (IdObject userB) None twoOwners = Inr [othersTask] \<and>
     listTasks (IdObject userB) (Some (JStr ''2024-05-01'')) twoOwners = Inr [] \<and>
     listRange (IdObject userB) (Some (JStr ''2024-01-01'')) (Some (JStr ''2024-12-31''))
       twoOwners = Inr [othersTask] \<and>
     monthly big (IdObject userB) (Some ''2024'') (Some ''5'') twoOwners =
       Some (Inr \<lparr> total' = 0, averageProgress = Some 0, daily = [] \<rparr>) \<and>
     dailyCompletion (IdObject userB) twoOwners = [(''2024-02-10'', Some 0, 1)] \<and>
     deleteTask (IdObject userB) id1 twoOwners = Some (Inl NotFoundError, twoOwners) \<and>
     weeklyReport \<notin> set (ownTasks (IdObject userB) twoOwners)"
proof
  fix big :: "int \<Rightarrow> string"
  note all = owner_isolation [where usr = "IdObject userB" and db = twoOwners and q = None
      and s = "Some (JStr ''2024-01-01'')" and e = "Some (JStr ''2024-12-31'')"
      and y = "Some ''2024''" and m = "Some ''5''" and t = weeklyReport and i = id1
      and now = 2000 and b = "[(''progress'', JNum 50)]" and r = "Inl NotFoundError"
      and d = twoOwners and ?t0.0 = 1000 and ?t1.0 = 1001 and newId = id2 and j = id1
      and u = "Inl NotFoundError" and mongo = "\<lambda>now b. None" and big = big]
  note day = owner_isolation [where usr = "IdObject userB" and db = twoOwners
      and q = "Some (JStr ''2024-05-01'')"
      and s = "Some (JStr ''2024-01-01'')" and e = "Some (JStr ''2024-12-31'')"
      and y = "Some ''2024''" and m = "Some ''5''" and t = weeklyReport and i = id1
      and now = 2000 and b = "[(''progress'', JNum 50)]" and r = "Inl NotFoundError"
      and d = twoOwners and ?t0.0 = 1000 and ?t1.0 = 1001 and newId = id2 and j = id1
      and u = "Inl NotFoundError" and mongo = "\<lambda>now b. None" and big = big]
  have 1: "listTasks (IdObject userB) None twoOwners = Inr [othersTask]"
    using all twoOwners_own twoOwners_reads [of big] by simp
  have 2: "listTasks (IdObject userB) (Some (JStr ''2024-05-01'')) twoOwners = Inr []"
    using day twoOwners_own twoOwners_reads [of big] by simp
  have 3: "listRange (IdObject userB) (Some (JStr ''2024-01-01'')) (Some (JStr ''2024-12-31''))
      twoOwners = Inr [othersTask]"
    using all twoOwners_own twoOwners_reads [of big] by simp
  have 4: "monthly big (IdObject userB) (Some ''2024'') (Some ''5'') twoOwners =
      Some (Inr \<lparr> total' = 0, averageProgress = Some 0, daily = [] \<rparr>)"
    using all twoOwners_own twoOwners_reads [of big] by simp
  have 5: "dailyCompletion (IdObject userB) twoOwners = [(''2024-02-10'', Some 0, 1)]"
    using all twoOwners_own twoOwners_reads [of big] by simp
  have 6: "deleteTask (IdObject userB) id1 twoOwners = Some (Inl NotFoundError, twoOwners) \<and>
      weeklyReport \<notin> set (ownTasks (IdObject userB) twoOwners)"
    using all twoOwners_foreign by blast
  from 1 2 3 4 5 6
  show "listTasks (IdObject userB) None twoOwners = Inr [othersTask] \<and>
     listTasks (IdObject userB) (Some (JStr ''2024-05-01'')) twoOwners = Inr [] \<and>
     listRange (IdObject userB) (Some (JStr ''2024-01-01'')) (Some (JStr ''2024-12-31''))
       twoOwners = Inr [othersTask] \<and>
     monthly big (IdObject userB) (Some ''2024'') (Some ''5'') twoOwners =
       Some (Inr \<lparr> total' = 0, averageProgress = Some 0, daily = [] \<rparr>) \<and>
     dailyCompletion (IdObject userB) twoOwners = [(''2024-02-10'', Some 0, 1)] \<and>
     deleteTask (IdObject userB) id1 twoOwners = Some (Inl NotFoundError, twoOwners) \<and>
     weeklyReport \<notin> set (ownTasks (IdObject userB) twoOwners)"
    by blast
qed

text \<open>
  C1. A task that user A created is in user B's results once A has sent the partial
  update the body \<^verbatim>\<open>{ "userId": B }\<close>: the update document is the whole body, the
  validators look at five other keys, and Mongoose sets the path. The listing of all
  tasks, the listing by date, the listing of a range, the monthly statistics and the daily
  completion of user B then hold the task.
\<close>

theorem created_task_in_other_owners_results:
  "create 1000 1001 id1 (IdString userA) plainBody [] = Some (Inr weeklyReport, [weeklyReport]) \<and>
   updatePartial mongo 2000 (IdString userA) id1 [(''userId'', JStr userB)] [weeklyReport] =
     Some (Inr handedOver, [handedOver]) \<and>
   listTasks (IdString userB) None [handedOver] = Inr [handedOver] \<and>
   listTasks (IdString userB) (Some (JStr ''2024-05-01'')) [handedOver] = Inr [handedOver] \<and>
   listRange (IdString userB) (Some (JStr ''2024-05-01'')) (Some (JStr ''2024-05-31''))
     [handedOver] = Inr [handedOver] \<and>
   monthly big (IdString userB) (Some ''2024'') (Some ''05'') [handedOver] =
     Some (Inr \<lparr> total' = 1, averageProgress = Some 0,
                 daily = [(''2024-05-01'', 1, Some 0)] \<rparr>) \<and>
   dailyCompletion (IdObject userB) [handedOver] = [(''2024-05-01'', Some 0, 1)]"
  by code_simp

section \<open>Further properties\<close>

lemma check_IsInt_whole:
  "check (IsInt lo (Some hi)) (Some (whole n)) \<longleftrightarrow> lo \<le> n \<and> n \<le> hi \<and> abs n < 10 ^ 21"
  by (auto simp: whole_def inRange_def)

text \<open>
  A missing or empty title is answered \<open>ValidationError\<close> with a descriptor for the
  title, and nothing is stored.
\<close>

theorem create_rejects_missing_or_empty_title:
  "field b ''title'' = None \<or> field b ''title'' = Some (JStr '''') \<Longrightarrow>
     create t0 t1 newId usr b db = Some (Inl (ValidationError (createChains b)), db) \<and>
     (''title'', Title_required) \<in> set (createChains b)"
  by (auto simp: create_def createChains_def runChain_def)

theorem create_rejects_missing_or_empty_title_witness:
  "create 1000 1001 id1 (IdString userA) [(''date'', JStr ''2024-05-01'')] [] =
     Some (Inl (ValidationError [(''title'', Invalid_value), (''title'', Title_required)]), []) \<and>
   create 1000 1001 id1 (IdString userA)
     [(''date'', JStr ''2024-05-01''), (''title'', JStr '''')] [] =
     Some (Inl (ValidationError [(''title'', Title_required)]), [])"
proof -
  have 1: "field [(''date'', JStr ''2024-05-01'')] ''title'' = None \<and>
      createChains [(''date'', JStr ''2024-05-01'')] =
        [(''title'', Invalid_value), (''title'', Title_required)]"
    by code_simp
  have 2: "field [(''date'', JStr ''2024-05-01''), (''title'', JStr '''')] ''title'' =
      Some (JStr '''') \<and>
      createChains [(''date'', JStr ''2024-05-01''), (''title'', JStr '''')] =
        [(''title'', Title_required)]"
    by code_simp
  show ?thesis
    using create_rejects_missing_or_empty_title [of "[(''date'', JStr ''2024-05-01'')]"
        1000 1001 id1 "IdString userA" "[]"]
      create_rejects_missing_or_empty_title
        [of "[(''date'', JStr ''2024-05-01''), (''title'', JStr '''')]"
        1000 1001 id1 "IdString userA" "[]"] 1 2
    by simp
qed

lemma failing_whole:
  "failing (IsInt lo (Some hi)) (Some (whole n)) =
     (if check (IsInt lo (Some hi)) (Some (whole n)) then 0 else 1)"
  by (simp add: whole_def)

lemma chain_rejects:
  "v = Some (whole n) \<Longrightarrow> n < lo \<or> hi < n \<Longrightarrow>
     runChain name opt [(IsInt lo (Some hi), msg)] v = [(name, msg)]"
  by (auto simp: runChain_def failing_whole check_IsInt_whole)

lemma progress_rejected:
  assumes "field b ''progress'' = Some (whole n)" "n < 0 \<or> 100 < n"
  shows "createChains b \<noteq> []" "updateChains i b \<noteq> []" "progressChains i b \<noteq> []"
  using chain_rejects [OF assms(1), of 0 100] assms(2)
  by (simp_all add: createChains_def updateChains_def progressChains_def)

lemma priority_rejected:
  assumes "field b ''priority'' = Some (whole n)" "n < 1 \<or> 3 < n"
  shows "createChains b \<noteq> []" "updateChains i b \<noteq> []"
  using chain_rejects [OF assms(1), of 1 3] assms(2)
  by (simp_all add: createChains_def updateChains_def)

text \<open>
  A top-level \<^verbatim>\<open>progress\<close> outside 0 to 100, or \<^verbatim>\<open>priority\<close> outside 1 to 3, is answered
  \<open>ValidationError\<close> by every route that validates the key, and nothing is stored.
\<close>

theorem out_of_range_rejected:
  "(field b ''progress'' = Some (whole n) \<and> (n < 0 \<or> 100 < n) \<longrightarrow>
      create t0 t1 newId usr b db = Some (Inl (ValidationError (createChains b)), db) \<and>
      updatePartial mongo now usr i b db = Some (Inl (ValidationError (updateChains i b)), db) \<and>
      updateProgress mongo now usr i b db =
        Some (Inl (ValidationError (progressChains i b)), db)) \<and>
   (field b ''priority'' = Some (whole n) \<and> (n < 1 \<or> 3 < n) \<longrightarrow>
      create t0 t1 newId usr b db = Some (Inl (ValidationError (createChains b)), db) \<and>
      updatePartial mongo now usr i b db = Some (Inl (ValidationError (updateChains i b)), db))"
proof (intro conjI impI)
  assume a: "field b ''progress'' = Some (whole n) \<and> (n < 0 \<or> 100 < n)"
  then have "createChains b \<noteq> []" "updateChains i b \<noteq> []" "progressChains i b \<noteq> []"
    using progress_rejected by blast+
  then show "create t0 t1 newId usr b db = Some (Inl (ValidationError (createChains b)), db)"
    and "updatePartial mongo now usr i b db = Some (Inl (ValidationError (updateChains i b)), db)"
    and "updateProgress mongo now usr i b db =
      Some (Inl (ValidationError (progressChains i b)), db)"
    by (simp_all add: create_def updatePartial_def updateProgress_def)
next
  assume a: "field b ''priority'' = Some (whole n) \<and> (n < 1 \<or> 3 < n)"
  then have "createChains b \<noteq> []" "updateChains i b \<noteq> []"
    using priority_rejected by blast+
  then show "create t0 t1 newId usr b db = Some (Inl (ValidationError (createChains b)), db)"
    and "updatePartial mongo now usr i b db = Some (Inl (ValidationError (updateChains i b)), db)"
    by (simp_all add: create_def updatePartial_def)
qed

theorem out_of_range_rejected_witness:
  "\<forall>mongo.
     create 1000 1001 id1 (IdString userA)
       [(''date'', JStr ''2024-05-01''), (''title'', JStr ''x''), (''progress'', whole 101)] [] =
       Some (Inl (ValidationError [(''progress'', Progress_0_100)]), []) \<and>
     updateProgress mongo 2000 (IdString userA) id1 [(''progress'', whole 101)] [weeklyReport] =
       Some (Inl (ValidationError [(''progress'', Progress_must_be_0_100)]), [weeklyReport]) \<and>
     updatePartial mongo 2000 (IdString userA) id1 [(''priority'', whole 0)] [weeklyReport] =
       Some (Inl (ValidationError [(''priority'', Invalid_value)]), [weeklyReport])"
proof
  fix mongo :: driver
  have 1: "field [(''date'', JStr ''2024-05-01''), (''title'', JStr ''x''),
        (''progress'', whole 101)] ''progress'' = Some (whole 101) \<and>
      createChains [(''date'', JStr ''2024-05-01''), (''title'', JStr ''x''),
        (''progress'', whole 101)] = [(''progress'', Progress_0_100)]"
    by code_simp
  have 2: "field [(''progress'', whole 101)] ''progress'' = Some (whole 101) \<and>
      progressChains id1 [(''progress'', whole 101)] = [(''progress'', Progress_must_be_0_100)]"
    by code_simp
  have 3: "field [(''priority'', whole 0)] ''priority'' = Some (whole 0) \<and>
      updateChains id1 [(''priority'', whole 0)] = [(''priority'', Invalid_value)]"
    by code_simp
  note a = out_of_range_rejected [of "[(''date'', JStr ''2024-05-01''), (''title'', JStr ''x''),
        (''progress'', whole 101)]" 101 1000 1001 id1 "IdString userA" "[]" mongo 2000 id1]
  note b = out_of_range_rejected [of "[(''progress'', whole 101)]" 101 1000 1001 id1
      "IdString userA" "[weeklyReport]" mongo 2000 id1]
  note c = out_of_range_rejected [of "[(''priority'', whole 0)]" 0 1000 1001 id1
      "IdString userA" "[weeklyReport]" mongo 2000 id1]
  have "create 1000 1001 id1 (IdString userA)
     [(''date'', JStr ''2024-05-01''), (''title'', JStr ''x''), (''progress'', whole 101)] [] =
     Some (Inl (ValidationError [(''progress'', Progress_0_100)]), [])"
    using a 1 by simp
  moreover have "updateProgress mongo 2000 (IdString userA) id1 [(''progress'', whole 101)]
      [weeklyReport] =
      Some (Inl (ValidationError [(''progress'', Progress_must_be_0_100)]), [weeklyReport])"
    using b 2 by simp
  moreover have "updatePartial mongo 2000 (IdString userA) id1 [(''priority'', whole 0)]
      [weeklyReport] = Some (Inl (ValidationError [(''priority'', Invalid_value)]), [weeklyReport])"
    using c 3 by simp
  ultimately show "create 1000 1001 id1 (IdString userA)
       [(''date'', JStr ''2024-05-01''), (''title'', JStr ''x''), (''progress'', whole 101)] [] =
       Some (Inl (ValidationError [(''progress'', Progress_0_100)]), []) \<and>
     updateProgress mongo 2000 (IdString userA) id1 [(''progress'', whole 101)] [weeklyReport] =
       Some (Inl (ValidationError [(''progress'', Progress_must_be_0_100)]), [weeklyReport]) \<and>
     updatePartial mongo 2000 (IdString userA) id1 [(''priority'', whole 0)] [weeklyReport] =
       Some (Inl (ValidationError [(''priority'', Invalid_value)]), [weeklyReport])"
    by blast
qed

text \<open>A task that \<open>create\<close> stores is within the schema's bounds and has a title and a date.\<close>

theorem create_stores_valid_tasks:
  "create t0 t1 newId usr b db = Some (Inr t, db') \<Longrightarrow>
     inBounds t \<and> title t \<noteq> [] \<and> date t \<noteq> []"
  using create_Inr [of t0 t1 newId usr b db t db']
  by (auto simp: schemaValid_def inBounds_def)

theorem create_stores_valid_tasks_witness:
  "inBounds weeklyReport \<and> title weeklyReport \<noteq> [] \<and> date weeklyReport \<noteq> []"
  using create_stores_valid_tasks [of 1000 1001 id1 "IdString userA" plainBody "[]"
      weeklyReport "[weeklyReport]"] create_plainBody
  by simp

text \<open>The progress route keeps every stored task within the bounds.\<close>

theorem updateProgress_keeps_bounds:
  "list_all inBounds db \<Longrightarrow> updateProgress mongo now usr i b db = Some (r, db') \<Longrightarrow>
     list_all inBounds db'"
proof -
  assume inv: "list_all inBounds db"
    and run: "updateProgress mongo now usr i b db = Some (r, db')"
  show ?thesis
  proof (cases "progressChains i b = []")
    case False
    with run inv show ?thesis by (simp add: updateProgress_alt)
  next
    case True
    from progressDoc_valid [OF True] obtain v where doc: "progressDoc b = [(''progress'', v)]"
      and v: "castNumber v = CastError \<or> (\<exists>n. castNumber v = Cast n \<and> 0 \<le> n \<and> n \<le> 100)"
      by blast
    from v show ?thesis
    proof
      assume "castNumber v = CastError"
      then have "updateOf mongo now (progressDoc b) = None"
        by (simp add: doc updateOf_progress)
      with run True inv show ?thesis
        by (auto simp: updateProgress_alt runUpdate_def split: cast.splits)
    next
      assume "\<exists>n. castNumber v = Cast n \<and> 0 \<le> n \<and> n \<le> 100"
      then obtain n where n: "castNumber v = Cast n" "0 \<le> n" "n \<le> 100" by blast
      have upd: "updateOf mongo now (progressDoc b) =
          Some (\<lambda>t. Cast (t\<lparr>progress := n, updateTime := now\<rparr>))"
        using n(1) by (simp add: doc updateOf_progress)
      have step: "inBounds t \<Longrightarrow> inBounds (t\<lparr>progress := n, updateTime := now\<rparr>)" for t
        using n by (simp add: inBounds_def)
      show ?thesis
      proof (cases "castObjectId i")
        case (Cast h)
        show ?thesis
          by (rule runUpdate_cases [OF Cast, of usr db
                "\<lambda>t. Cast (t\<lparr>progress := n, updateTime := now\<rparr>)"])
             (use run True inv step upd in \<open>auto simp: updateProgress_alt\<close>)
      next
        case CastError
        with run True inv show ?thesis by (simp add: updateProgress_alt runUpdate_def)
      next
        case Unmodelled
        with run True show ?thesis by (simp add: updateProgress_alt runUpdate_def)
      qed
    qed
  qed
qed

theorem updateProgress_keeps_bounds_witness:
  "list_all inBounds [weeklyReport] \<and> list_all inBounds [halfDone]"
proof -
  have a: "list_all inBounds [weeklyReport]" by code_simp
  have b: "updateProgress (\<lambda>now b. None) 2000 (IdString userA) id1 [(''progress'', JNum 50)]
      [weeklyReport] = Some (Inr halfDone, [halfDone])"
    by code_simp
  from updateProgress_keeps_bounds [OF a b] a show ?thesis by simp
qed

text \<open>
  No request to \<open>create\<close>, \<open>updateProgress\<close> or \<open>deleteTask\<close> is outside the model: what
  their validators let through has a cast that the model computes. A request to
  \<open>updatePartial\<close> is outside it only when its document is one that \<open>castUpdate\<close> does not
  compute, a task matches, and the change leaves what the record represents.
\<close>

lemma routes_modelled:
  "create t0 t1 newId usr b db \<noteq> None \<and>
   updateProgress mongo now usr i b db \<noteq> None \<and>
   deleteTask usr i db \<noteq> None \<and>
   (updatePartial mongo now usr i b db = None \<longrightarrow>
      (\<exists>t f. t \<in> set db \<and> matches usr i t \<and> castUpdate b = Unmodelled \<and>
             mongo now b = Some f \<and> f t = Unmodelled))"
proof (intro conjI impI)
  show "create t0 t1 newId usr b db \<noteq> None" by (rule create_modelled)
  show "deleteTask usr i db \<noteq> None"
    using isMongoId_cast [of i]
    by (auto simp: deleteTask_def deleteChains_nil split: cast.splits prod.splits option.splits)
  show "updateProgress mongo now usr i b db \<noteq> None"
    using updateProgress_total_frame [of mongo now usr i b db] by auto
next
  assume none: "updatePartial mongo now usr i b db = None"
  then have chains: "updateChains i b = []" and run: "runUpdate usr i (updateOf mongo now b) db = None"
    by (auto simp: updatePartial_def split: if_splits)
  from chains have "castObjectId i \<noteq> Unmodelled"
    using updateChains_id isMongoId_cast by blast
  with run obtain h g where h: "castObjectId i = Cast h" and g: "updateOf mongo now b = Some g"
    by (cases "castObjectId i"; cases "updateOf mongo now b") (auto simp: runUpdate_def)
  have "\<exists>xs t ys. db = xs @ t # ys \<and> owns usr h t \<and> g t = Unmodelled"
    by (rule runUpdate_cases [OF h, of usr db g]) (use run g in auto)
  then obtain xs t ys where db: "db = xs @ t # ys" and own: "owns usr h t"
    and gt: "g t = Unmodelled"
    by blast
  from g gt obtain f where "castUpdate b = Unmodelled" "mongo now b = Some f" "f t = Unmodelled"
    by (auto simp: updateOf_def keepId_def split: cast.splits if_splits)
  moreover have "t \<in> set db" using db by simp
  moreover have "matches usr i t" using own by (simp add: matches_owns [OF h])
  ultimately show "\<exists>t f. t \<in> set db \<and> matches usr i t \<and> castUpdate b = Unmodelled \<and>
      mongo now b = Some f \<and> f t = Unmodelled"
    by blast
qed

text \<open>Both listings are in ascending order of date, then of creation time.\<close>

theorem listings_sorted:
  "(listTasks usr q db = Inr ts \<longrightarrow> sorted (map (\<lambda>t. (date t, createTime t)) ts)) \<and>
   (listRange usr s e db = Inr ts \<longrightarrow> sorted (map (\<lambda>t. (date t, createTime t)) ts))"
  by (auto simp: listTasks_def listRange_def sortTasks_def
      split: if_splits option.splits json.splits)

theorem listings_sorted_witness:
  "listTasks (IdString userA) None [marchTask, leapDayTask] = Inr [leapDayTask, marchTask] \<and>
   sorted (map (\<lambda>t. (date t, createTime t)) [leapDayTask, marchTask])"
proof -
  have a: "listTasks (IdString userA) None [marchTask, leapDayTask] = Inr [leapDayTask, marchTask]"
    by code_simp
  with listings_sorted [of "IdString userA" None "[marchTask, leapDayTask]"
      "[leapDayTask, marchTask]" None None] show ?thesis by blast
qed

lemma taskId_applyPatch [simp]: "taskId (applyPatch now p t) = taskId t"
  by (simp add: applyPatch_def)

lemma updateOf_keeps_id:
  "updateOf mongo now b = Some f \<Longrightarrow> f t = Cast t' \<Longrightarrow> taskId t' = taskId t"
  by (auto simp: updateOf_def keepId_def split: cast.splits if_splits)

lemma runUpdate_ids:
  assumes "runUpdate usr i (updateOf mongo now b) db = Some (r, db')"
  shows "map taskId db' = map taskId db"
proof (cases "castObjectId i")
  case (Cast h)
  show ?thesis
  proof (cases "updateOf mongo now b")
    case None
    with Cast assms show ?thesis by (simp add: runUpdate_def)
  next
    case (Some f)
    show ?thesis
      by (rule runUpdate_cases [OF Cast, of usr db f])
         (use assms updateOf_keeps_id [OF Some] in \<open>auto simp: Some\<close>)
  qed
next
  case CastError
  with assms show ?thesis by (simp add: runUpdate_def)
next
  case Unmodelled
  with assms show ?thesis by (simp add: runUpdate_def)
qed

text \<open>No route gives two stored tasks the same id.\<close>

theorem distinct_ids_preserved:
  "distinct (map taskId db) \<Longrightarrow>
     (create t0 t1 newId usr b db = Some (r, db') \<longrightarrow> distinct (map taskId db')) \<and>
     (updatePartial mongo now usr i b db = Some (r, db') \<longrightarrow> distinct (map taskId db')) \<and>
     (updateProgress mongo now usr i b db = Some (r, db') \<longrightarrow> distinct (map taskId db')) \<and>
     (deleteTask usr i db = Some (u, db') \<longrightarrow> distinct (map taskId db'))"
proof (intro conjI impI)
  assume d: "distinct (map taskId db)"
  show "distinct (map taskId db')" if "create t0 t1 newId usr b db = Some (r, db')"
    using that d
    by (auto simp: create_def TaskCreate_def Let_def
        split: if_splits cast.splits option.splits prod.splits)
  show "distinct (map taskId db')" if "updatePartial mongo now usr i b db = Some (r, db')"
    using that d runUpdate_ids [of usr i mongo now b db r db']
    by (auto simp: updatePartial_def split: if_splits)
  show "distinct (map taskId db')" if "updateProgress mongo now usr i b db = Some (r, db')"
    using that d runUpdate_ids [of usr i mongo now "progressDoc b" db r db']
    by (auto simp: updateProgress_alt split: if_splits)
  show "distinct (map taskId db')" if "deleteTask usr i db = Some (u, db')"
  proof (cases "deleteChains i = []")
    case False
    with that d show ?thesis by (simp add: deleteTask_def)
  next
    case True
    show ?thesis
    proof (cases "castObjectId i")
      case (Cast h)
      show ?thesis
        using findOneAndDelete_cases [of "owns usr h" db] that d
        by (auto simp: deleteTask_valid [OF Cast])
    next
      case CastError
      with that d True show ?thesis by (simp add: deleteTask_def)
    next
      case Unmodelled
      with that True show ?thesis by (simp add: deleteTask_def)
    qed
  qed
qed

theorem distinct_ids_preserved_witness:
  "distinct (map taskId [weeklyReport]) \<and> distinct (map taskId [halfDone]) \<and>
   distinct (map taskId ([] :: task list))"
proof -
  have a: "distinct (map taskId [weeklyReport])" by code_simp
  have b: "updateProgress (\<lambda>now b. None) 2000 (IdString userA) id1 [(''progress'', JNum 50)]
      [weeklyReport] = Some (Inr halfDone, [halfDone])"
    by code_simp
  have c: "deleteTask (IdString userA) id1 [weeklyReport] = Some (Inr (), [])"
    by code_simp
  note inst = distinct_ids_preserved [OF a, of 1000 1001 id2 "IdString userA"
      "[(''progress'', JNum 50)]" "Inr halfDone" "[halfDone]" "\<lambda>now b. None" 2000 id1 "Inr ()"]
  note del = distinct_ids_preserved [OF a, of 1000 1001 id2 "IdString userA"
      "[(''progress'', JNum 50)]" "Inr halfDone" "[]" "\<lambda>now b. None" 2000 id1 "Inr ()"]
  from inst b have "distinct (map taskId [halfDone])" by blast
  moreover from del c have "distinct (map taskId ([] :: task list))" by blast
  ultimately show ?thesis using a by blast
qed

text \<open>
  Between two strings with a common prefix lie only strings with that prefix. So every
  date in a month's window has the year and a dash in front: no key of the \<^verbatim>\<open>daily\<close>
  object is an array index or the name of a property that every object inherits, and
  the list \<open>dailyOf\<close> builds is the object.
\<close>

lemma between_prefix:
  fixes p :: string
  shows "p @ a \<le> s \<Longrightarrow> s \<le> p @ b \<Longrightarrow> take (length p) s = p"
proof (induction p arbitrary: s)
  case Nil
  then show ?case by simp
next
  case (Cons c p)
  from Cons.prems(1) obtain d s' where s: "s = d # s'"
    by (cases s) auto
  from Cons.prems s have "c = d" by (auto split: if_splits)
  with Cons.prems s have "p @ a \<le> s'" "s' \<le> p @ b" by auto
  with Cons.IH [of s'] s \<open>c = d\<close> show ?case by simp
qed

lemma month_dates_have_dash:
  "t \<in> set (monthTasks big usr year month db) \<Longrightarrow> CHR ''-'' \<in> set (date t)"
proof -
  assume "t \<in> set (monthTasks big usr year month db)"
  then have w: "monthStartStr big year month \<le> date t" "date t \<le> monthEndStr big year month"
    by (auto simp: monthTasks_def inWindow_def)
  define p where "p = yearText big year @ ''-''"
  have "monthStartStr big year month = p @ (pad (Some month) @ ''-01'')"
    and "monthEndStr big year month =
      p @ (pad (Some month) @ ''-'' @ pad (getDateOfNewDate year month 0))"
    by (simp_all add: monthStartStr_def monthEndStr_def p_def)
  with w have "take (length p) (date t) = p"
    using between_prefix by metis
  moreover have "CHR ''-'' \<in> set p" by (simp add: p_def)
  ultimately show ?thesis
    by (metis in_set_takeD)
qed

lemma month_dates_have_dash_example:
  "CHR ''-'' \<in> set (date leapDayTask)"
proof -
  have "leapDayTask \<in> set (monthTasks (\<lambda>n. []) (IdString userA) 2024 2 [leapDayTask])"
    by code_simp
  then show ?thesis by (rule month_dates_have_dash)
qed

end
